theory Spec2Isabelle
  imports Main "HOL-Library.Sublist"
begin

section \<open>The file system the transfer scripts run on\<close>

text \<open>
  The two scripts \<^verbatim>\<open>.plan/send_request.py\<close> and \<^verbatim>\<open>.lifecycle/send_response.py\<close>
  keep all of their state in the file system. The model is a POSIX tree without symbolic
  links, without permissions and without limits on the length of names or on space: a
  map from canonical absolute paths (lists of components, the empty list being \<^verbatim>\<open>/\<close>)
  to nodes. File contents are text.
\<close>

datatype node = File string | Dir

type_synonym path = "string list"

type_synonym filesystem = "path \<Rightarrow> node option"

text \<open>
  The exceptions the library calls of the scripts raise on such a tree.
  \<open>PathError\<close> stands for Python's \<^verbatim>\<open>FileNotFoundError\<close> and \<^verbatim>\<open>NotADirectoryError\<close>
  (a component of the path is missing or is not a directory).
\<close>

datatype error = PathError | FileExistsError | IsADirectoryError | SameFileError

subsection \<open>pathlib\<close>

fun split_on :: "char \<Rightarrow> string \<Rightarrow> string list" where
  "split_on d [] = [[]]"
| "split_on d (x # xs) =
     (if x = d then [] # split_on d xs
      else (case split_on d xs of [] \<Rightarrow> [[x]] | w # ws \<Rightarrow> (x # w) # ws))"

text \<open>The components pathlib keeps of a string: empty ones and \<^verbatim>\<open>.\<close> are dropped,
  \<^verbatim>\<open>..\<close> is kept.\<close>

definition parts :: "string \<Rightarrow> path" where
  "parts s = filter (\<lambda>c. c \<noteq> [] \<and> c \<noteq> ''.'') (split_on CHR ''/'' s)"

text \<open>\<^verbatim>\<open>p / s\<close>: an absolute right operand replaces the left one.\<close>

definition joinpath :: "path \<Rightarrow> string \<Rightarrow> path" where
  "joinpath p s = (if s \<noteq> [] \<and> hd s = CHR ''/'' then parts s else p @ parts s)"

text \<open>\<^verbatim>\<open>p.parent\<close>\<close>

definition parent :: "path \<Rightarrow> path" where
  "parent p = butlast p"

subsection \<open>Path resolution\<close>

text \<open>
  The kernel walks a path one component at a time; every directory it passes through
  has to exist. \<open>resolve fs cur cs\<close> is the canonical path reached from the directory
  \<open>cur\<close> along \<open>cs\<close>, or \<open>None\<close> where the walk fails. The node reached need not exist.
\<close>

fun resolve :: "filesystem \<Rightarrow> path \<Rightarrow> string list \<Rightarrow> path option" where
  "resolve fs cur [] = Some cur"
| "resolve fs cur (c # cs) =
     (case fs cur of
        Some Dir \<Rightarrow>
          (if c = [] \<or> c = ''.'' then resolve fs cur cs
           else if c = ''..'' then resolve fs (butlast cur) cs
           else resolve fs (cur @ [c]) cs)
      | _ \<Rightarrow> None)"

text \<open>\<^verbatim>\<open>Path.exists()\<close>: false on every failure of the walk.\<close>

definition exists :: "filesystem \<Rightarrow> path \<Rightarrow> bool" where
  "exists fs p = (case resolve fs [] p of None \<Rightarrow> False | Some q \<Rightarrow> fs q \<noteq> None)"

text \<open>\<^verbatim>\<open>os.path.isdir\<close>\<close>

definition isdir :: "filesystem \<Rightarrow> path \<Rightarrow> bool" where
  "isdir fs p = (case resolve fs [] p of None \<Rightarrow> False | Some q \<Rightarrow> fs q = Some Dir)"

text \<open>\<^verbatim>\<open>open(p, 'r').read()\<close>\<close>

definition read_text :: "filesystem \<Rightarrow> path \<Rightarrow> error + string" where
  "read_text fs p =
     (case resolve fs [] p of
        None \<Rightarrow> Inl PathError
      | Some q \<Rightarrow>
          (case fs q of
             None \<Rightarrow> Inl PathError
           | Some Dir \<Rightarrow> Inl IsADirectoryError
           | Some (File c) \<Rightarrow> Inr c))"

text \<open>\<^verbatim>\<open>p.mkdir(exist_ok=True)\<close>: an existing directory is accepted, an existing file
  is not; the parent has to be a directory (the walk has checked it).\<close>

definition mkdir_exist_ok :: "filesystem \<Rightarrow> path \<Rightarrow> error + filesystem" where
  "mkdir_exist_ok fs p =
     (case resolve fs [] p of
        None \<Rightarrow> Inl PathError
      | Some q \<Rightarrow>
          (case fs q of
             None \<Rightarrow> Inr (fs(q \<mapsto> Dir))
           | Some Dir \<Rightarrow> Inr fs
           | Some (File c) \<Rightarrow> Inl FileExistsError))"

text \<open>\<^verbatim>\<open>shutil.copyfile(src, dst)\<close>: refuses to copy a file onto itself, reads the
  source, then creates or truncates the destination and writes the content.\<close>

definition copyfile :: "filesystem \<Rightarrow> path \<Rightarrow> path \<Rightarrow> error + filesystem" where
  "copyfile fs src dst =
     (if exists fs src \<and> exists fs dst \<and> resolve fs [] src = resolve fs [] dst
      then Inl SameFileError
      else
        (case read_text fs src of
           Inl e \<Rightarrow> Inl e
         | Inr c \<Rightarrow>
             (case resolve fs [] dst of
                None \<Rightarrow> Inl PathError
              | Some d \<Rightarrow>
                  (if fs d = Some Dir then Inl IsADirectoryError
                   else Inr (fs(d \<mapsto> File c))))))"

text \<open>\<^verbatim>\<open>shutil.copy2(src, dst)\<close>: where \<open>dst\<close> is a directory the file is copied into
  it under the source's base name. The metadata copy2 also transfers is not modelled.\<close>

definition copy2_target :: "filesystem \<Rightarrow> path \<Rightarrow> path \<Rightarrow> path" where
  "copy2_target fs src dst = (if isdir fs dst then dst @ [last src] else dst)"

definition copy2 :: "filesystem \<Rightarrow> path \<Rightarrow> path \<Rightarrow> error + filesystem" where
  "copy2 fs src dst = copyfile fs src (copy2_target fs src dst)"

text \<open>\<^verbatim>\<open>p.unlink()\<close>\<close>

definition unlink :: "filesystem \<Rightarrow> path \<Rightarrow> error + filesystem" where
  "unlink fs p =
     (case resolve fs [] p of
        None \<Rightarrow> Inl PathError
      | Some q \<Rightarrow>
          (case fs q of
             None \<Rightarrow> Inl PathError
           | Some Dir \<Rightarrow> Inl IsADirectoryError
           | Some (File c) \<Rightarrow> Inr (fs(q := None))))"

subsection \<open>Strings and the clock\<close>

text \<open>\<^verbatim>\<open>needle in haystack\<close> on strings\<close>

fun contains :: "string \<Rightarrow> string \<Rightarrow> bool" where
  "contains needle [] = (needle = [])"
| "contains needle (h # hs) = (prefix needle (h # hs) \<or> contains needle hs)"

record datetime =
  year :: nat
  month :: nat
  day :: nat
  hour :: nat
  minute :: nat
  second :: nat

definition digit :: "nat \<Rightarrow> char" where
  "digit n = ''0123456789'' ! (n mod 10)"

definition pad2 :: "nat \<Rightarrow> string" where
  "pad2 n = [digit (n div 10), digit n]"

definition pad4 :: "nat \<Rightarrow> string" where
  "pad4 n = [digit (n div 1000), digit (n div 100), digit (n div 10), digit n]"

text \<open>\<^verbatim>\<open>now.strftime('%Y%m%d_%H%M%S')\<close>, for the years 1000 to 9999\<close>

definition strftime :: "datetime \<Rightarrow> string" where
  "strftime t =
     pad4 (year t) @ pad2 (month t) @ pad2 (day t) @ ''_'' @
     pad2 (hour t) @ pad2 (minute t) @ pad2 (second t)"

section \<open>The transfer operations\<close>

definition valid_teams :: "string list" where
  "valid_teams = [''dev'', ''test'', ''review'', ''doc'']"

text \<open>
  \<open>send_request file recipient_team_member lifecycle_folder now fs\<close>: \<open>file\<close> is the
  script's \<^verbatim>\<open>__file__\<close>, \<open>now\<close> what \<^verbatim>\<open>datetime.now()\<close> returns and \<open>fs\<close> the file
  system the script starts on. The result is what the function returns (\<open>Inr\<close>) or the
  exception that leaves it (\<open>Inl\<close>), with the file system it leaves behind. The
  transcript the script prints is not modelled.
\<close>

definition send_request ::
  "path \<Rightarrow> string \<Rightarrow> string \<Rightarrow> datetime \<Rightarrow> filesystem \<Rightarrow> (error + bool) \<times> filesystem" where
  "send_request file recipient_team_member lifecycle_folder now fs =
    (if recipient_team_member \<notin> set valid_teams then (Inr False, fs)
     else if lifecycle_folder = [] \<or> CHR ''/'' \<in> set lifecycle_folder
               \<or> CHR 0x5C \<in> set lifecycle_folder then (Inr False, fs)
     else
      let project_root = parent (parent file);
          source_file = joinpath (joinpath project_root ''.plan'') ''request.md''
      in
      if \<not> exists fs source_file then (Inr False, fs)
      else
      let lifecycle_dir = joinpath (joinpath project_root ''.lifecycle'') lifecycle_folder
      in
      if \<not> exists fs lifecycle_dir then (Inr False, fs)
      else
      let requirements_file = joinpath lifecycle_dir ''requirements.md''
      in
      if \<not> exists fs requirements_file then (Inr False, fs)
      else
      (case read_text fs source_file of
         Inl e \<Rightarrow> (Inl e, fs)
       | Inr request_content \<Rightarrow>
      let expected_reference = ''.lifecycle/'' @ lifecycle_folder @ ''/requirements.md''
      in
      if \<not> contains expected_reference request_content then (Inr False, fs)
      else
      let dest_dir = joinpath project_root (''.'' @ recipient_team_member);
          dest_file = joinpath dest_dir ''request.md''
      in
      (case mkdir_exist_ok fs dest_dir of
         Inl e \<Rightarrow> (Inl e, fs)
       | Inr fs1 \<Rightarrow>
      let timestamp = strftime now;
          archive_file = joinpath lifecycle_dir
            (timestamp @ ''_request_to_'' @ recipient_team_member @ ''.md'')
      in
      (case copy2 fs1 source_file dest_file of
         Inl e \<Rightarrow> (Inl e, fs1)
       | Inr fs2 \<Rightarrow>
      (case copy2 fs2 source_file archive_file of
         Inl e \<Rightarrow> (Inl e, fs2)
       | Inr fs3 \<Rightarrow>
      (case unlink fs3 source_file of
         Inl e \<Rightarrow> (Inl e, fs3)
       | Inr fs4 \<Rightarrow> (Inr True, fs4)))))))"

definition send_response ::
  "path \<Rightarrow> string \<Rightarrow> string \<Rightarrow> datetime \<Rightarrow> filesystem \<Rightarrow> (error + bool) \<times> filesystem" where
  "send_response file submitting_team_member lifecycle_folder now fs =
    (if submitting_team_member \<notin> set valid_teams then (Inr False, fs)
     else if lifecycle_folder = [] \<or> CHR ''/'' \<in> set lifecycle_folder
               \<or> CHR 0x5C \<in> set lifecycle_folder then (Inr False, fs)
     else
      let project_root = parent (parent file);
          source_dir = joinpath project_root (''.'' @ submitting_team_member);
          source_file = joinpath source_dir ''response.md''
      in
      if \<not> exists fs source_file then (Inr False, fs)
      else
      let dest_dir = joinpath project_root ''.plan'';
          dest_file = joinpath dest_dir ''response.md'';
          lifecycle_dir = joinpath (joinpath project_root ''.lifecycle'') lifecycle_folder
      in
      if \<not> exists fs lifecycle_dir then (Inr False, fs)
      else
      let timestamp = strftime now;
          archive_file = joinpath lifecycle_dir
            (timestamp @ ''_response_from_'' @ submitting_team_member @ ''.md'')
      in
      (case copy2 fs source_file dest_file of
         Inl e \<Rightarrow> (Inl e, fs)
       | Inr fs1 \<Rightarrow>
      (case copy2 fs1 source_file archive_file of
         Inl e \<Rightarrow> (Inl e, fs1)
       | Inr fs2 \<Rightarrow>
      (case unlink fs2 source_file of
         Inl e \<Rightarrow> (Inl e, fs2)
       | Inr fs3 \<Rightarrow>
      let request_file = joinpath source_dir ''request.md''
      in
      if exists fs3 request_file then
        (case unlink fs3 request_file of
           Inl e \<Rightarrow> (Inl e, fs3)
         | Inr fs4 \<Rightarrow> (Inr True, fs4))
      else (Inr True, fs3)))))"

section \<open>The runs, step by step\<close>

text \<open>
  The same two functions, recording the file system after every library call that
  changes it. A run that is interrupted, or left by an exception, stops in one of
  these states. Each library call is one step; what a call does halfway through is
  not modelled.
\<close>

datatype step = Start | MadeDir | Delivered | Archived | DeletedSource | DeletedRequest

definition send_request_trace ::
  "path \<Rightarrow> string \<Rightarrow> string \<Rightarrow> datetime \<Rightarrow> filesystem \<Rightarrow> (step \<times> filesystem) list" where
  "send_request_trace file recipient_team_member lifecycle_folder now fs =
    (if recipient_team_member \<notin> set valid_teams then [(Start, fs)]
     else if lifecycle_folder = [] \<or> CHR ''/'' \<in> set lifecycle_folder
               \<or> CHR 0x5C \<in> set lifecycle_folder then [(Start, fs)]
     else
      let project_root = parent (parent file);
          source_file = joinpath (joinpath project_root ''.plan'') ''request.md''
      in
      if \<not> exists fs source_file then [(Start, fs)]
      else
      let lifecycle_dir = joinpath (joinpath project_root ''.lifecycle'') lifecycle_folder
      in
      if \<not> exists fs lifecycle_dir then [(Start, fs)]
      else
      let requirements_file = joinpath lifecycle_dir ''requirements.md''
      in
      if \<not> exists fs requirements_file then [(Start, fs)]
      else
      (case read_text fs source_file of
         Inl e \<Rightarrow> [(Start, fs)]
       | Inr request_content \<Rightarrow>
      let expected_reference = ''.lifecycle/'' @ lifecycle_folder @ ''/requirements.md''
      in
      if \<not> contains expected_reference request_content then [(Start, fs)]
      else
      let dest_dir = joinpath project_root (''.'' @ recipient_team_member);
          dest_file = joinpath dest_dir ''request.md''
      in
      (case mkdir_exist_ok fs dest_dir of
         Inl e \<Rightarrow> [(Start, fs)]
       | Inr fs1 \<Rightarrow>
      let timestamp = strftime now;
          archive_file = joinpath lifecycle_dir
            (timestamp @ ''_request_to_'' @ recipient_team_member @ ''.md'')
      in
      (case copy2 fs1 source_file dest_file of
         Inl e \<Rightarrow> [(Start, fs), (MadeDir, fs1)]
       | Inr fs2 \<Rightarrow>
      (case copy2 fs2 source_file archive_file of
         Inl e \<Rightarrow> [(Start, fs), (MadeDir, fs1), (Delivered, fs2)]
       | Inr fs3 \<Rightarrow>
      (case unlink fs3 source_file of
         Inl e \<Rightarrow> [(Start, fs), (MadeDir, fs1), (Delivered, fs2), (Archived, fs3)]
       | Inr fs4 \<Rightarrow>
           [(Start, fs), (MadeDir, fs1), (Delivered, fs2), (Archived, fs3),
            (DeletedSource, fs4)]))))))"

definition send_response_trace ::
  "path \<Rightarrow> string \<Rightarrow> string \<Rightarrow> datetime \<Rightarrow> filesystem \<Rightarrow> (step \<times> filesystem) list" where
  "send_response_trace file submitting_team_member lifecycle_folder now fs =
    (if submitting_team_member \<notin> set valid_teams then [(Start, fs)]
     else if lifecycle_folder = [] \<or> CHR ''/'' \<in> set lifecycle_folder
               \<or> CHR 0x5C \<in> set lifecycle_folder then [(Start, fs)]
     else
      let project_root = parent (parent file);
          source_dir = joinpath project_root (''.'' @ submitting_team_member);
          source_file = joinpath source_dir ''response.md''
      in
      if \<not> exists fs source_file then [(Start, fs)]
      else
      let dest_dir = joinpath project_root ''.plan'';
          dest_file = joinpath dest_dir ''response.md'';
          lifecycle_dir = joinpath (joinpath project_root ''.lifecycle'') lifecycle_folder
      in
      if \<not> exists fs lifecycle_dir then [(Start, fs)]
      else
      let timestamp = strftime now;
          archive_file = joinpath lifecycle_dir
            (timestamp @ ''_response_from_'' @ submitting_team_member @ ''.md'')
      in
      (case copy2 fs source_file dest_file of
         Inl e \<Rightarrow> [(Start, fs)]
       | Inr fs1 \<Rightarrow>
      (case copy2 fs1 source_file archive_file of
         Inl e \<Rightarrow> [(Start, fs), (Delivered, fs1)]
       | Inr fs2 \<Rightarrow>
      (case unlink fs2 source_file of
         Inl e \<Rightarrow> [(Start, fs), (Delivered, fs1), (Archived, fs2)]
       | Inr fs3 \<Rightarrow>
      let request_file = joinpath source_dir ''request.md''
      in
      if exists fs3 request_file then
        (case unlink fs3 request_file of
           Inl e \<Rightarrow> [(Start, fs), (Delivered, fs1), (Archived, fs2), (DeletedSource, fs3)]
         | Inr fs4 \<Rightarrow>
             [(Start, fs), (Delivered, fs1), (Archived, fs2), (DeletedSource, fs3),
              (DeletedRequest, fs4)])
      else [(Start, fs), (Delivered, fs1), (Archived, fs2), (DeletedSource, fs3)]))))"

section \<open>Names for the paths of the protocol\<close>

text \<open>
  The paths the two scripts compute, as functions of the script's location, the role,
  the unit and the clock. They are the local variables of the code, written once for
  the statements below.
\<close>

definition project_root :: "path \<Rightarrow> path" where
  "project_root file = parent (parent file)"

definition plan_dir :: "path \<Rightarrow> path" where
  "plan_dir file = joinpath (project_root file) ''.plan''"

definition staged_request :: "path \<Rightarrow> path" where
  "staged_request file = joinpath (joinpath (project_root file) ''.plan'') ''request.md''"

definition plan_response :: "path \<Rightarrow> path" where
  "plan_response file = joinpath (plan_dir file) ''response.md''"

definition role_dir :: "path \<Rightarrow> string \<Rightarrow> path" where
  "role_dir file role = joinpath (project_root file) (''.'' @ role)"

definition role_request :: "path \<Rightarrow> string \<Rightarrow> path" where
  "role_request file role = joinpath (role_dir file role) ''request.md''"

definition role_response :: "path \<Rightarrow> string \<Rightarrow> path" where
  "role_response file role = joinpath (role_dir file role) ''response.md''"

definition unit_dir :: "path \<Rightarrow> string \<Rightarrow> path" where
  "unit_dir file unit = joinpath (joinpath (project_root file) ''.lifecycle'') unit"

definition requirements :: "path \<Rightarrow> string \<Rightarrow> path" where
  "requirements file unit = joinpath (unit_dir file unit) ''requirements.md''"

definition request_archive :: "path \<Rightarrow> string \<Rightarrow> datetime \<Rightarrow> string \<Rightarrow> path" where
  "request_archive file unit now role =
     joinpath (unit_dir file unit) (strftime now @ ''_request_to_'' @ role @ ''.md'')"

definition response_archive :: "path \<Rightarrow> string \<Rightarrow> datetime \<Rightarrow> string \<Rightarrow> path" where
  "response_archive file unit now role =
     joinpath (unit_dir file unit) (strftime now @ ''_response_from_'' @ role @ ''.md'')"

text \<open>The place \<^verbatim>\<open>shutil.copy2\<close> wrote to holds the text: the destination itself or,
  where the destination was a directory, the entry of that name in it.\<close>

definition holds_copy :: "filesystem \<Rightarrow> path \<Rightarrow> string \<Rightarrow> string \<Rightarrow> bool" where
  "holds_copy fs dst base c = (read_text fs dst = Inr c \<or> read_text fs (dst @ [base]) = Inr c)"

subsection \<open>Notions used in the proofs\<close>

text \<open>The purely lexical counterpart of \<open>resolve\<close>: where the walk succeeds, this is
  where it ends.\<close>

fun normpath :: "path \<Rightarrow> string list \<Rightarrow> path" where
  "normpath cur [] = cur"
| "normpath cur (c # cs) =
     (if c = [] \<or> c = ''.'' then normpath cur cs
      else if c = ''..'' then normpath (butlast cur) cs
      else normpath (cur @ [c]) cs)"

text \<open>Two file systems with the same directories: path resolution cannot tell them apart.\<close>

definition same_dirs :: "filesystem \<Rightarrow> filesystem \<Rightarrow> bool" where
  "same_dirs fs fs' = (\<forall>p. (fs' p = Some Dir) = (fs p = Some Dir))"

text \<open>A file system is a tree: whatever exists below the root lies in a directory.\<close>

definition tree :: "filesystem \<Rightarrow> bool" where
  "tree fs = (\<forall>p. p \<noteq> [] \<longrightarrow> fs p \<noteq> None \<longrightarrow> fs (butlast p) = Some Dir)"

subsection \<open>An example workspace\<close>

text \<open>
  The end-to-end scenario of the specification: the workspace \<^verbatim>\<open>/w\<close> with the unit
  \<^verbatim>\<open>demo\<close>, its requirements and a staged request that refers to them.
\<close>

definition request_script :: path where
  "request_script = [''w'', ''.plan'', ''send_request.py'']"

definition response_script :: path where
  "response_script = [''w'', ''.lifecycle'', ''send_response.py'']"

text \<open>The response script as Python 3.11 names it when it is started from the worker's
  directory by \<^verbatim>\<open>python3 ../.lifecycle/send_response.py\<close>.\<close>

definition detour_script :: path where
  "detour_script = [''w'', ''.dev'', ''..'', ''.lifecycle'', ''send_response.py'']"

definition demo_now :: datetime where
  "demo_now = \<lparr>year = 2024, month = 3, day = 9, hour = 14, minute = 5, second = 7\<rparr>"

definition demo_staged :: filesystem where
  "demo_staged = map_of
     [([], Dir), ([''w''], Dir), ([''w'', ''.plan''], Dir),
      ([''w'', ''.plan'', ''request.md''], File ''see .lifecycle/demo/requirements.md''),
      ([''w'', ''.lifecycle''], Dir), ([''w'', ''.lifecycle'', ''demo''], Dir),
      ([''w'', ''.lifecycle'', ''demo'', ''requirements.md''], File ''reqs'')]"

text \<open>The worker \<^verbatim>\<open>dev\<close> holds the request and has staged its response; the unit has
  no requirements file.\<close>

definition demo_answered :: filesystem where
  "demo_answered = map_of
     [([], Dir), ([''w''], Dir), ([''w'', ''.plan''], Dir),
      ([''w'', ''.dev''], Dir),
      ([''w'', ''.dev'', ''request.md''], File ''see .lifecycle/demo/requirements.md''),
      ([''w'', ''.dev'', ''response.md''], File ''done''),
      ([''w'', ''.lifecycle''], Dir), ([''w'', ''.lifecycle'', ''demo''], Dir)]"

text \<open>The request has been sent; the planner stages a second one within the same
  second.\<close>

definition demo_delivered :: filesystem where
  "demo_delivered = snd (send_request request_script ''dev'' ''demo'' demo_now demo_staged)"

definition demo_restaged :: filesystem where
  "demo_restaged = demo_delivered
     ([''w'', ''.plan'', ''request.md''] \<mapsto> File ''again, see .lifecycle/demo/requirements.md'')"

lemmas path_defs = project_root_def plan_dir_def staged_request_def plan_response_def
  role_dir_def role_request_def role_response_def unit_dir_def requirements_def
  request_archive_def response_archive_def

lemmas library_defs = parent_def joinpath_def parts_def exists_def isdir_def read_text_def
  mkdir_exist_ok_def copyfile_def copy2_target_def copy2_def unlink_def
  strftime_def pad2_def pad4_def digit_def valid_teams_def

lemmas run_defs = send_request_def send_response_def Let_def

lemmas trace_defs = send_request_trace_def send_response_trace_def

lemmas demo_defs = request_script_def response_script_def detour_script_def demo_now_def
  demo_staged_def
  demo_answered_def

section \<open>Paths and path resolution\<close>

lemma split_on_absent: "d \<notin> set s \<Longrightarrow> split_on d s = [s]"
  by (induction s) auto

lemma joinpath_name:
  "CHR ''/'' \<notin> set s \<Longrightarrow> s \<noteq> [] \<Longrightarrow> s \<noteq> ''.'' \<Longrightarrow> joinpath p s = p @ [s]"
  by (cases s) (auto simp: joinpath_def parts_def split_on_absent)

lemma joinpath_literals:
  "joinpath p ''.plan'' = p @ [''.plan'']"
  "joinpath p ''.lifecycle'' = p @ [''.lifecycle'']"
  "joinpath p ''request.md'' = p @ [''request.md'']"
  "joinpath p ''response.md'' = p @ [''response.md'']"
  "joinpath p ''requirements.md'' = p @ [''requirements.md'']"
  by (simp_all add: joinpath_def parts_def)

lemma resolve_normpath: "resolve fs cur cs = Some q \<Longrightarrow> q = normpath cur cs"
  by (induction cs arbitrary: cur) (auto split: option.splits node.splits if_splits)

lemma normpath_append: "normpath cur (xs @ ys) = normpath (normpath cur xs) ys"
  by (induction xs arbitrary: cur) auto

lemma normpath_snoc:
  "c \<noteq> [] \<Longrightarrow> c \<noteq> ''.'' \<Longrightarrow> c \<noteq> ''..'' \<Longrightarrow> normpath cur (xs @ [c]) = normpath cur xs @ [c]"
  by (simp add: normpath_append)

lemma resolve_append:
  "resolve fs cur (xs @ ys) =
     (case resolve fs cur xs of None \<Rightarrow> None | Some q \<Rightarrow> resolve fs q ys)"
  by (induction xs arbitrary: cur) (auto split: option.splits node.splits)

lemma resolve_mono:
  "resolve fs cur cs = Some q \<Longrightarrow> (\<And>p. fs p = Some Dir \<Longrightarrow> fs' p = Some Dir) \<Longrightarrow>
   resolve fs' cur cs = Some q"
  by (induction cs arbitrary: cur) (auto split: option.splits node.splits if_splits)

lemma same_dirs_resolve:
  assumes "same_dirs fs fs'"
  shows "resolve fs' cur cs = resolve fs cur cs"
proof (induction cs arbitrary: cur)
  case Nil
  show ?case by simp
next
  case (Cons c cs)
  have "(fs' cur = Some Dir) = (fs cur = Some Dir)"
    using assms by (simp add: same_dirs_def)
  then show ?case
    using Cons.IH by (cases "fs cur = Some Dir") (auto split: option.splits node.splits)
qed

lemma same_dirs_refl: "same_dirs fs fs"
  by (simp add: same_dirs_def)

lemma same_dirs_trans: "same_dirs a b \<Longrightarrow> same_dirs b c \<Longrightarrow> same_dirs a c"
  by (simp add: same_dirs_def)

lemma same_dirs_write: "fs d \<noteq> Some Dir \<Longrightarrow> same_dirs fs (fs(d \<mapsto> File c))"
  by (simp add: same_dirs_def)

lemma same_dirs_remove: "fs q = Some (File c) \<Longrightarrow> same_dirs fs (fs(q := None))"
  by (auto simp: same_dirs_def)

lemma same_dirs_isdir: "same_dirs fs fs' \<Longrightarrow> isdir fs' p = isdir fs p"
  by (simp add: isdir_def same_dirs_resolve split: option.splits) (simp add: same_dirs_def)

section \<open>The library calls\<close>

lemma exists_iff: "exists fs p \<longleftrightarrow> (\<exists>q. resolve fs [] p = Some q \<and> fs q \<noteq> None)"
  by (auto simp: exists_def split: option.splits)

lemma isdir_iff: "isdir fs p \<longleftrightarrow> (\<exists>q. resolve fs [] p = Some q \<and> fs q = Some Dir)"
  by (auto simp: isdir_def split: option.splits)

lemma read_text_iff:
  "read_text fs p = Inr c \<longleftrightarrow> (\<exists>q. resolve fs [] p = Some q \<and> fs q = Some (File c))"
  by (auto simp: read_text_def split: option.splits node.splits)

lemma mkdir_exist_ok_iff:
  "mkdir_exist_ok fs p = Inr fs' \<longleftrightarrow>
     (\<exists>q. resolve fs [] p = Some q \<and>
        (fs q = None \<and> fs' = fs(q \<mapsto> Dir) \<or> fs q = Some Dir \<and> fs' = fs))"
  by (auto simp: mkdir_exist_ok_def split: option.splits node.splits)

lemma copyfile_iff:
  "copyfile fs src dst = Inr fs' \<longleftrightarrow>
     (\<exists>s d c. resolve fs [] src = Some s \<and> fs s = Some (File c) \<and>
        resolve fs [] dst = Some d \<and> d \<noteq> s \<and> fs d \<noteq> Some Dir \<and> fs' = fs(d \<mapsto> File c))"
  by (auto simp: copyfile_def exists_iff read_text_def split: option.splits node.splits)

lemma unlink_iff:
  "unlink fs p = Inr fs' \<longleftrightarrow>
     (\<exists>q c. resolve fs [] p = Some q \<and> fs q = Some (File c) \<and> fs' = fs(q := None))"
  by (auto simp: unlink_def split: option.splits node.splits)

lemma copy2_file:
  assumes "copy2 fs src dst = Inr fs'" "\<not> isdir fs dst"
  obtains s d c where "resolve fs [] src = Some s" "fs s = Some (File c)"
    "resolve fs [] dst = Some d" "d \<noteq> s" "fs d \<noteq> Some Dir" "fs' = fs(d \<mapsto> File c)"
  using assms by (auto simp: copy2_def copy2_target_def copyfile_iff)

lemma contains_iff: "contains n h \<longleftrightarrow> sublist n h"
  by (induction h) (auto simp: sublist_Cons_right)

section \<open>Roles and archive names\<close>

lemma digit_in: "digit n \<in> set ''0123456789''"
  unfolding digit_def by (rule nth_mem) simp

lemma digit_not_slash: "digit n \<noteq> CHR ''/''"
  using digit_in [of n] by auto

lemma strftime_no_slash: "CHR ''/'' \<notin> set (strftime t)"
  by (simp add: strftime_def pad2_def pad4_def digit_not_slash [symmetric])

lemma length_strftime: "length (strftime t) = 15"
  by (simp add: strftime_def pad2_def pad4_def)

lemma valid_team_no_slash: "r \<in> set valid_teams \<Longrightarrow> CHR ''/'' \<notin> set r"
  by (auto simp: valid_teams_def)

lemma role_dir_snoc:
  "role \<in> set valid_teams \<Longrightarrow> role_dir file role = project_root file @ [''.'' @ role]"
  unfolding role_dir_def by (rule joinpath_name) (auto simp: valid_teams_def)

lemma request_archive_snoc:
  "role \<in> set valid_teams \<Longrightarrow>
   request_archive file unit now role =
     unit_dir file unit @ [strftime now @ ''_request_to_'' @ role @ ''.md'']"
  unfolding request_archive_def
  by (rule joinpath_name) (auto simp: strftime_no_slash valid_team_no_slash)

lemma response_archive_snoc:
  "role \<in> set valid_teams \<Longrightarrow>
   response_archive file unit now role =
     unit_dir file unit @ [strftime now @ ''_response_from_'' @ role @ ''.md'']"
  unfolding response_archive_def
  by (rule joinpath_name) (auto simp: strftime_no_slash valid_team_no_slash)

lemma archive_name_proper:
  "strftime now @ rest \<noteq> []" "strftime now @ rest \<noteq> ''.''" "strftime now @ rest \<noteq> ''..''"
  "strftime now @ rest \<noteq> ''request.md''" "strftime now @ rest \<noteq> ''response.md''"
  using length_strftime [of now] by (auto dest: arg_cong [where f = length])

lemma resolve_snoc:
  "c \<noteq> [] \<Longrightarrow> c \<noteq> ''.'' \<Longrightarrow> c \<noteq> ''..'' \<Longrightarrow>
   resolve fs cur (xs @ [c]) = Some q \<longleftrightarrow>
     (\<exists>d. resolve fs cur xs = Some d \<and> fs d = Some Dir \<and> q = d @ [c])"
  by (auto simp: resolve_append split: option.splits node.splits)

lemma archive_name_not_role:
  "strftime now @ x @ role @ y \<noteq> ''.'' @ role"
  using length_strftime [of now] by (auto dest: arg_cong [where f = length])

lemma normpath_role:
  "role \<in> set valid_teams \<Longrightarrow>
   normpath cur (xs @ [''.'' @ role]) = normpath cur xs @ [''.'' @ role]"
  by (auto simp: valid_teams_def normpath_append)

lemma tree_demo_staged: "tree demo_staged"
  by (auto simp: tree_def demo_staged_def split: if_splits)

section \<open>Successful runs, step by step\<close>

lemma send_request_success:
  assumes "send_request file role unit now fs = (Inr True, fs')"
  obtains c fs1 fs2 fs3 where
    "role \<in> set valid_teams" "unit \<noteq> []" "CHR ''/'' \<notin> set unit"
    "exists fs (staged_request file)" "exists fs (unit_dir file unit)"
    "exists fs (requirements file unit)"
    "read_text fs (staged_request file) = Inr c"
    "contains (''.lifecycle/'' @ unit @ ''/requirements.md'') c"
    "mkdir_exist_ok fs (role_dir file role) = Inr fs1"
    "copy2 fs1 (staged_request file) (role_request file role) = Inr fs2"
    "copy2 fs2 (staged_request file) (request_archive file unit now role) = Inr fs3"
    "unlink fs3 (staged_request file) = Inr fs'"
  using assms unfolding send_request_def Let_def path_defs
  by (auto split: if_splits sum.splits)

lemma send_response_success:
  assumes "send_response file role unit now fs = (Inr True, fs')"
  obtains fs1 fs2 fs3 where
    "role \<in> set valid_teams" "unit \<noteq> []" "CHR ''/'' \<notin> set unit"
    "exists fs (role_response file role)" "exists fs (unit_dir file unit)"
    "copy2 fs (role_response file role) (plan_response file) = Inr fs1"
    "copy2 fs1 (role_response file role) (response_archive file unit now role) = Inr fs2"
    "unlink fs2 (role_response file role) = Inr fs3"
    "exists fs3 (role_request file role) \<and> unlink fs3 (role_request file role) = Inr fs'
       \<or> \<not> exists fs3 (role_request file role) \<and> fs' = fs3"
  using assms unfolding send_response_def Let_def path_defs
  by (auto split: if_splits sum.splits)

section \<open>Validation\<close>

text \<open>
  C3. A role outside dev, test, review and doc, or a unit name that is empty or contains
  a slash or a backslash, makes both \<open>send_request\<close> and \<open>send_response\<close> return
  failure with the file system exactly as it was.
\<close>

theorem invalid_arguments_rejected:
  "role \<notin> {''dev'', ''test'', ''review'', ''doc''} \<or> unit = []
     \<or> CHR ''/'' \<in> set unit \<or> CHR 0x5C \<in> set unit \<Longrightarrow>
   send_request file role unit now fs = (Inr False, fs) \<and>
   send_response file role unit now fs = (Inr False, fs)"
  by (auto simp: send_request_def send_response_def valid_teams_def)

theorem invalid_arguments_rejected_witness:
  "send_request request_script ''ops'' ''demo'' demo_now demo_staged = (Inr False, demo_staged) \<and>
   send_response response_script ''ops'' ''demo'' demo_now demo_staged = (Inr False, demo_staged) \<and>
   send_request request_script ''dev'' ''a/b'' demo_now demo_staged = (Inr False, demo_staged) \<and>
   send_response response_script ''dev'' ''a/b'' demo_now demo_staged = (Inr False, demo_staged)"
  using invalid_arguments_rejected [of "''ops''" "''demo''" request_script demo_now demo_staged]
    invalid_arguments_rejected [of "''ops''" "''demo''" response_script demo_now demo_staged]
    invalid_arguments_rejected [of "''dev''" "''a/b''" request_script demo_now demo_staged]
    invalid_arguments_rejected [of "''dev''" "''a/b''" response_script demo_now demo_staged]
  by simp

text \<open>
  C4. Whenever the text of the staged request \<^verbatim>\<open>.plan/request.md\<close> does not contain
  the substring \<^verbatim>\<open>.lifecycle/<unit>/requirements.md\<close>, \<open>send_request\<close> returns failure
  and leaves the file system as it was, whatever else holds.
\<close>

theorem request_without_reference_rejected:
  "read_text fs (staged_request file) = Inr c \<Longrightarrow>
   \<not> sublist (''.lifecycle/'' @ unit @ ''/requirements.md'') c \<Longrightarrow>
   send_request file role unit now fs = (Inr False, fs)"
  by (simp add: send_request_def staged_request_def project_root_def Let_def contains_iff)

theorem request_without_reference_rejected_witness:
  "send_request request_script ''dev'' ''demo'' demo_now
     (demo_staged([''w'', ''.plan'', ''request.md''] \<mapsto> File ''see the requirements''))
   = (Inr False, demo_staged([''w'', ''.plan'', ''request.md''] \<mapsto> File ''see the requirements''))"
proof -
  let ?fs = "demo_staged([''w'', ''.plan'', ''request.md''] \<mapsto> File ''see the requirements'')"
  have staged: "read_text ?fs (staged_request request_script) = Inr ''see the requirements''"
    by (simp add: path_defs library_defs demo_defs)
  have absent: "\<not> sublist (''.lifecycle/'' @ ''demo'' @ ''/requirements.md'') ''see the requirements''"
    unfolding contains_iff [symmetric] by simp
  show ?thesis
    using request_without_reference_rejected [OF staged absent] .
qed

text \<open>
  C5. Whenever \<^verbatim>\<open>.lifecycle/<unit>/requirements.md\<close> does not exist, \<open>send_request\<close>
  returns failure and leaves the file system as it was, also when the staged request
  exists and refers to the requirements.
\<close>

theorem request_without_requirements_rejected:
  "\<not> exists fs (requirements file unit) \<Longrightarrow>
   send_request file role unit now fs = (Inr False, fs)"
  by (simp add: send_request_def requirements_def unit_dir_def project_root_def Let_def)

theorem request_without_requirements_rejected_witness:
  "read_text (demo_staged([''w'', ''.lifecycle'', ''demo'', ''requirements.md''] := None))
     (staged_request request_script) = Inr ''see .lifecycle/demo/requirements.md'' \<and>
   send_request request_script ''dev'' ''demo'' demo_now
     (demo_staged([''w'', ''.lifecycle'', ''demo'', ''requirements.md''] := None))
   = (Inr False, demo_staged([''w'', ''.lifecycle'', ''demo'', ''requirements.md''] := None))"
proof -
  let ?fs = "demo_staged([''w'', ''.lifecycle'', ''demo'', ''requirements.md''] := None)"
  have missing: "\<not> exists ?fs (requirements request_script ''demo'')"
    by (simp add: path_defs library_defs demo_defs)
  have "read_text ?fs (staged_request request_script) = Inr ''see .lifecycle/demo/requirements.md''"
    by (simp add: path_defs library_defs demo_defs)
  then show ?thesis
    using request_without_requirements_rejected [OF missing] by simp
qed

section \<open>What a successful transfer leaves behind\<close>

text \<open>
  C1, as the code has it. After every successful run of \<open>send_request\<close> on a tree in
  which neither \<^verbatim>\<open>.<role>/request.md\<close> nor the archive path is an existing directory:
  the staged request \<^verbatim>\<open>.plan/request.md\<close> no longer exists, \<^verbatim>\<open>.<role>/request.md\<close> holds
  the staged text, and so does the archive file, which lies in \<^verbatim>\<open>.lifecycle/<unit>/\<close>
  and whose name ends in \<^verbatim>\<open>_request_to_<role>.md\<close>.
\<close>

theorem request_delivered:
  assumes run: "send_request file role unit now fs = (Inr True, fs')"
    and tree: "tree fs"
    and nd: "\<not> isdir fs (role_request file role)"
    and na: "\<not> isdir fs (request_archive file unit now role)"
  shows "\<not> exists fs' (staged_request file) \<and>
    (\<exists>c. read_text fs (staged_request file) = Inr c \<and>
         read_text fs' (role_request file role) = Inr c \<and>
         read_text fs' (request_archive file unit now role) = Inr c) \<and>
    butlast (request_archive file unit now role) = unit_dir file unit \<and>
    suffix (''_request_to_'' @ role @ ''.md'') (last (request_archive file unit now role))"
proof -
  let ?src = "staged_request file" and ?dst = "role_request file role"
  let ?arc = "request_archive file unit now role"
  let ?name = "strftime now @ ''_request_to_'' @ role @ ''.md''"
  from run obtain c fs1 fs2 fs3 where
    role: "role \<in> set valid_teams"
    and req: "exists fs (requirements file unit)"
    and staged: "read_text fs ?src = Inr c"
    and mk: "mkdir_exist_ok fs (role_dir file role) = Inr fs1"
    and c1: "copy2 fs1 ?src ?dst = Inr fs2"
    and c2: "copy2 fs2 ?src ?arc = Inr fs3"
    and u: "unlink fs3 ?src = Inr fs'"
    by (rule send_request_success)
  have arc: "?arc = unit_dir file unit @ [?name]"
    using role by (rule request_archive_snoc)
  from staged obtain s where s: "resolve fs [] ?src = Some s" "fs s = Some (File c)"
    by (auto simp: read_text_iff)
  from mk obtain q where q: "resolve fs [] (role_dir file role) = Some q"
    and fs1: "fs q = None \<and> fs1 = fs(q \<mapsto> Dir) \<or> fs q = Some Dir \<and> fs1 = fs"
    by (auto simp: mkdir_exist_ok_iff)
  have q_last: "q = normpath [] (project_root file) @ [''.'' @ role]"
    using resolve_normpath [OF q] role normpath_role [OF role, of "[]" "project_root file"]
      by (simp add: role_dir_snoc)
  have grow: "fs p = Some Dir \<Longrightarrow> fs1 p = Some Dir" for p
    using fs1 by auto
  have keep: "p \<noteq> q \<Longrightarrow> fs1 p = fs p" for p
    using fs1 by auto
  have s1: "resolve fs1 [] ?src = Some s" "fs1 s = Some (File c)"
    using s fs1 by (auto intro: resolve_mono)
  have nd1: "\<not> isdir fs1 ?dst"
  proof
    assume "isdir fs1 ?dst"
    then obtain d where d: "resolve fs1 [] (role_dir file role) = Some d"
      "fs1 (d @ [''request.md'']) = Some Dir"
      by (auto simp: isdir_iff role_request_def joinpath_literals resolve_snoc)
    have "d = q" using d(1) resolve_mono [OF q, of fs1] grow by simp
    from fs1 show False
    proof
      assume h: "fs q = None \<and> fs1 = fs(q \<mapsto> Dir)"
      with d \<open>d = q\<close> have "fs (q @ [''request.md'']) = Some Dir" by simp
      with tree have "fs q = Some Dir" unfolding tree_def
        by (metis butlast_snoc option.distinct(1) snoc_eq_iff_butlast)
      with h show False by simp
    next
      assume "fs q = Some Dir \<and> fs1 = fs"
      with \<open>isdir fs1 ?dst\<close> nd show False by simp
    qed
  qed
  with c1 obtain s' d c' where
    s': "resolve fs1 [] ?src = Some s'" "fs1 s' = Some (File c')"
    and d: "resolve fs1 [] ?dst = Some d" "d \<noteq> s'" "fs1 d \<noteq> Some Dir"
    and fs2: "fs2 = fs1(d \<mapsto> File c')"
    by (rule copy2_file)
  from s' s1 have [simp]: "s' = s" "c' = c" by simp_all
  have sd2: "same_dirs fs1 fs2" using d fs2 by (simp add: same_dirs_write)
  have na1: "\<not> isdir fs1 ?arc"
  proof
    assume "isdir fs1 ?arc"
    then obtain l where l: "resolve fs1 [] (unit_dir file unit) = Some l"
      "fs1 (l @ [?name]) = Some Dir"
      by (auto simp: isdir_iff arc resolve_snoc archive_name_proper)
    from req obtain l' where l': "resolve fs [] (unit_dir file unit) = Some l'" "fs l' = Some Dir"
      by (auto simp: exists_iff requirements_def joinpath_literals resolve_snoc)
    have "l = l'" using l(1) resolve_mono [OF l'(1), of fs1] grow by simp
    have "l @ [?name] \<noteq> q" using q_last by (simp add: archive_name_not_role)
    then have "fs (l @ [?name]) = Some Dir" using l keep by simp
    then have "isdir fs ?arc"
      using l' \<open>l = l'\<close> by (simp add: isdir_iff arc resolve_snoc archive_name_proper)
    with na show False by simp
  qed
  then have "\<not> isdir fs2 ?arc" using sd2 by (simp add: same_dirs_isdir)
  with c2 obtain s'' a c'' where
    s'': "resolve fs2 [] ?src = Some s''" "fs2 s'' = Some (File c'')"
    and a: "resolve fs2 [] ?arc = Some a" "a \<noteq> s''" "fs2 a \<noteq> Some Dir"
    and fs3: "fs3 = fs2(a \<mapsto> File c'')"
    by (rule copy2_file)
  from s'' s1 sd2 have [simp]: "s'' = s" by (simp add: same_dirs_resolve)
  from s'' d s1 fs2 have [simp]: "c'' = c" by simp
  have sd3: "same_dirs fs1 fs3"
    using a fs3 sd2 by (blast intro: same_dirs_trans same_dirs_write)
  from u have fs': "fs' = fs3(s := None)"
    using s1 sd3 by (auto simp: unlink_iff same_dirs_resolve)
  have "fs3 s = Some (File c)" using fs3 fs2 s1 d a by simp
  then have sd: "same_dirs fs1 fs'"
    using fs' sd3 by (blast intro: same_dirs_trans same_dirs_remove)
  have "\<not> exists fs' ?src"
    using s1 sd fs' by (simp add: exists_iff same_dirs_resolve)
  moreover have "read_text fs' ?dst = Inr c"
    using d sd fs' fs3 fs2 by (auto simp: read_text_iff same_dirs_resolve)
  moreover have "read_text fs' ?arc = Inr c"
    using a sd sd2 fs' fs3 by (auto simp: read_text_iff same_dirs_resolve)
  moreover have "suffix (''_request_to_'' @ role @ ''.md'') (last ?arc)"
    by (simp add: arc suffix_def)
  moreover have "butlast ?arc = unit_dir file unit"
    by (simp add: arc)
  ultimately show ?thesis using staged by blast
qed

text \<open>The scenario of the specification is such a run.\<close>

theorem request_delivered_witness:
  "fst (send_request request_script ''dev'' ''demo'' demo_now demo_staged) = Inr True \<and>
   \<not> exists (snd (send_request request_script ''dev'' ''demo'' demo_now demo_staged))
      (staged_request request_script) \<and>
   read_text (snd (send_request request_script ''dev'' ''demo'' demo_now demo_staged))
      (role_request request_script ''dev'') = Inr ''see .lifecycle/demo/requirements.md'' \<and>
   read_text (snd (send_request request_script ''dev'' ''demo'' demo_now demo_staged))
      (request_archive request_script ''demo'' demo_now ''dev'') = Inr ''see .lifecycle/demo/requirements.md''"
proof -
  let ?run = "send_request request_script ''dev'' ''demo'' demo_now demo_staged"
  have ok: "fst ?run = Inr True"
    by (simp add: run_defs library_defs demo_defs)
  then have run: "?run = (Inr True, snd ?run)"
    by (simp add: prod_eq_iff)
  have nd: "\<not> isdir demo_staged (role_request request_script ''dev'')"
    by (simp add: path_defs library_defs demo_defs)
  have na: "\<not> isdir demo_staged (request_archive request_script ''demo'' demo_now ''dev'')"
    by (simp add: path_defs library_defs demo_defs)
  have before: "read_text demo_staged (staged_request request_script) = Inr ''see .lifecycle/demo/requirements.md''"
    by (simp_all add: path_defs library_defs demo_defs)
  show ?thesis
    using request_delivered [OF run tree_demo_staged nd na] ok before by auto
qed

text \<open>
  C1 as stated does not hold of every successful run: where \<^verbatim>\<open>.dev/request.md\<close> is a
  directory, \<^verbatim>\<open>shutil.copy2\<close> copies the request into it, the run succeeds, and
  \<^verbatim>\<open>.dev/request.md\<close> is still a directory.
\<close>

theorem request_onto_directory:
  "fst (send_request request_script ''dev'' ''demo'' demo_now
          (demo_staged([''w'', ''.dev''] \<mapsto> Dir, [''w'', ''.dev'', ''request.md''] \<mapsto> Dir))) = Inr True \<and>
   read_text (demo_staged([''w'', ''.dev''] \<mapsto> Dir, [''w'', ''.dev'', ''request.md''] \<mapsto> Dir))
     (staged_request request_script) = Inr ''see .lifecycle/demo/requirements.md'' \<and>
   read_text (snd (send_request request_script ''dev'' ''demo'' demo_now
          (demo_staged([''w'', ''.dev''] \<mapsto> Dir, [''w'', ''.dev'', ''request.md''] \<mapsto> Dir))))
     (role_request request_script ''dev'') = Inl IsADirectoryError"
  by (simp add: run_defs path_defs library_defs demo_defs)

text \<open>
  C2, as the code has it. After every successful run of \<open>send_response\<close> in which
  neither \<^verbatim>\<open>.plan/response.md\<close> nor the archive path is an existing directory:
  \<^verbatim>\<open>.<role>/response.md\<close> no longer exists, \<^verbatim>\<open>.plan/response.md\<close> holds the staged
  text, and so does the archive file, which lies in \<^verbatim>\<open>.lifecycle/<unit>/\<close> and whose
  name ends in \<^verbatim>\<open>_response_from_<role>.md\<close>; \<^verbatim>\<open>.<role>/request.md\<close> does not exist,
  whether it existed before or not.
\<close>

theorem response_delivered:
  assumes run: "send_response file role unit now fs = (Inr True, fs')"
    and nd: "\<not> isdir fs (plan_response file)"
    and na: "\<not> isdir fs (response_archive file unit now role)"
  shows "\<not> exists fs' (role_response file role) \<and>
    (\<exists>c. read_text fs (role_response file role) = Inr c \<and>
         read_text fs' (plan_response file) = Inr c \<and>
         read_text fs' (response_archive file unit now role) = Inr c) \<and>
    butlast (response_archive file unit now role) = unit_dir file unit \<and>
    suffix (''_response_from_'' @ role @ ''.md'') (last (response_archive file unit now role)) \<and>
    \<not> exists fs' (role_request file role)"
proof -
  from run obtain fs1 fs2 fs3 where
    role: "role \<in> set valid_teams"
    and c1: "copy2 fs (role_response file role) (plan_response file) = Inr fs1"
    and c2: "copy2 fs1 (role_response file role) (response_archive file unit now role) = Inr fs2"
    and u: "unlink fs2 (role_response file role) = Inr fs3"
    and r: "exists fs3 (role_request file role) \<and> unlink fs3 (role_request file role) = Inr fs'
       \<or> \<not> exists fs3 (role_request file role) \<and> fs' = fs3"
    by (rule send_response_success)
  from c1 nd obtain s d c where
    s: "resolve fs [] (role_response file role) = Some s" "fs s = Some (File c)"
    and d: "resolve fs [] (plan_response file) = Some d" "d \<noteq> s" "fs d \<noteq> Some Dir"
    and fs1: "fs1 = fs(d \<mapsto> File c)"
    by (rule copy2_file)
  have sd1: "same_dirs fs fs1" using d fs1 by (simp add: same_dirs_write)
  from na sd1 have "\<not> isdir fs1 (response_archive file unit now role)"
    by (simp add: same_dirs_isdir)
  with c2 obtain s' a c' where
    s': "resolve fs1 [] (role_response file role) = Some s'" "fs1 s' = Some (File c')"
    and a: "resolve fs1 [] (response_archive file unit now role) = Some a" "a \<noteq> s'" "fs1 a \<noteq> Some Dir"
    and fs2: "fs2 = fs1(a \<mapsto> File c')"
    by (rule copy2_file)
  from s' s sd1 have [simp]: "s' = s" by (simp add: same_dirs_resolve)
  from s' d s fs1 have [simp]: "c' = c" by simp
  have sd2: "same_dirs fs fs2"
    using a fs2 sd1 by (blast intro: same_dirs_trans same_dirs_write)
  from u have fs3: "fs3 = fs2(s := None)"
    using s sd2 by (auto simp: unlink_iff same_dirs_resolve)
  have "fs2 s = Some (File c)" using fs2 fs1 s d a by simp
  then have sd3: "same_dirs fs fs3"
    using fs3 sd2 by (blast intro: same_dirs_trans same_dirs_remove)
  have d_last: "d = normpath [] (plan_dir file) @ [''response.md'']"
    using resolve_normpath [OF d(1)] by (simp add: plan_response_def joinpath_literals normpath_snoc)
  have a_last: "a = normpath [] (unit_dir file unit) @ [strftime now @ ''_response_from_'' @ role @ ''.md'']"
    using resolve_normpath [OF a(1)] role
    by (simp add: response_archive_snoc normpath_snoc archive_name_proper)
  have fs3_d: "fs3 d = Some (File c)" and fs3_a: "fs3 a = Some (File c)" and fs3_s: "fs3 s = None"
    using fs3 fs2 fs1 d a by auto
  have final: "same_dirs fs fs' \<and> fs' d = Some (File c) \<and> fs' a = Some (File c) \<and> fs' s = None
    \<and> \<not> exists fs' (role_request file role)"
  proof -
    from r show ?thesis
    proof
      assume h: "exists fs3 (role_request file role) \<and> unlink fs3 (role_request file role) = Inr fs'"
      then obtain q c'' where q: "resolve fs3 [] (role_request file role) = Some q"
        "fs3 q = Some (File c'')" "fs' = fs3(q := None)"
        by (auto simp: unlink_iff)
      have q_last: "q = normpath [] (role_dir file role) @ [''request.md'']"
        using resolve_normpath [OF q(1)] by (simp add: role_request_def joinpath_literals normpath_snoc)
      have "same_dirs fs3 fs'" using q by (simp add: same_dirs_remove)
      with sd3 have "same_dirs fs fs'" by (rule same_dirs_trans)
      moreover have "resolve fs' [] (role_request file role) = Some q"
        using q \<open>same_dirs fs3 fs'\<close> by (simp add: same_dirs_resolve)
      ultimately show ?thesis
        using q fs3_d fs3_a fs3_s q_last d_last a_last
        by (auto simp: exists_iff archive_name_proper)
    next
      assume "\<not> exists fs3 (role_request file role) \<and> fs' = fs3"
      then show ?thesis using sd3 fs3_d fs3_a fs3_s by simp
    qed
  qed
  then have sd: "same_dirs fs fs'" by simp
  have "\<not> exists fs' (role_response file role)"
    using final s sd by (simp add: exists_iff same_dirs_resolve)
  moreover have "read_text fs (role_response file role) = Inr c"
    using s by (auto simp: read_text_iff)
  moreover have "read_text fs' (plan_response file) = Inr c"
    using final d sd by (simp add: read_text_iff same_dirs_resolve)
  moreover have "read_text fs' (response_archive file unit now role) = Inr c"
    using final a sd sd1 by (simp add: read_text_iff same_dirs_resolve)
  moreover have "suffix (''_response_from_'' @ role @ ''.md'') (last (response_archive file unit now role))"
    using role by (simp add: response_archive_snoc suffix_def)
  moreover have "butlast (response_archive file unit now role) = unit_dir file unit"
    using role by (simp add: response_archive_snoc)
  ultimately show ?thesis using final by blast
qed

text \<open>The worker's answer in the example workspace is such a run.\<close>

theorem response_delivered_witness:
  "fst (send_response response_script ''dev'' ''demo'' demo_now demo_answered) = Inr True \<and>
   exists demo_answered (role_request response_script ''dev'') \<and>
   \<not> exists (snd (send_response response_script ''dev'' ''demo'' demo_now demo_answered))
      (role_response response_script ''dev'') \<and>
   read_text (snd (send_response response_script ''dev'' ''demo'' demo_now demo_answered))
      (plan_response response_script) = Inr ''done'' \<and>
   read_text (snd (send_response response_script ''dev'' ''demo'' demo_now demo_answered))
      (response_archive response_script ''demo'' demo_now ''dev'') = Inr ''done'' \<and>
   \<not> exists (snd (send_response response_script ''dev'' ''demo'' demo_now demo_answered))
      (role_request response_script ''dev'')"
proof -
  let ?run = "send_response response_script ''dev'' ''demo'' demo_now demo_answered"
  have ok: "fst ?run = Inr True"
    by (simp add: run_defs library_defs demo_defs)
  then have run: "?run = (Inr True, snd ?run)"
    by (simp add: prod_eq_iff)
  have nd: "\<not> isdir demo_answered (plan_response response_script)"
    by (simp add: path_defs library_defs demo_defs)
  have na: "\<not> isdir demo_answered (response_archive response_script ''demo'' demo_now ''dev'')"
    by (simp add: path_defs library_defs demo_defs)
  have before: "read_text demo_answered (role_response response_script ''dev'') = Inr ''done''"
    "exists demo_answered (role_request response_script ''dev'')"
    by (simp_all add: path_defs library_defs demo_defs)
  show ?thesis
    using response_delivered [OF run nd na] ok before by auto
qed

text \<open>
  C2 as stated does not hold of every successful run: where \<^verbatim>\<open>.plan/response.md\<close> is
  a directory, the response is copied into it and the run succeeds.
\<close>

theorem response_onto_directory:
  "fst (send_response response_script ''dev'' ''demo'' demo_now
          (demo_answered([''w'', ''.plan'', ''response.md''] \<mapsto> Dir))) = Inr True \<and>
   read_text (demo_answered([''w'', ''.plan'', ''response.md''] \<mapsto> Dir))
     (role_response response_script ''dev'') = Inr ''done'' \<and>
   read_text (snd (send_response response_script ''dev'' ''demo'' demo_now
          (demo_answered([''w'', ''.plan'', ''response.md''] \<mapsto> Dir))))
     (plan_response response_script) = Inl IsADirectoryError"
  by (simp add: run_defs path_defs library_defs demo_defs)

section \<open>More on the library calls and the paths\<close>

lemma send_request_trace_last:
  "snd (last (send_request_trace file role unit now fs)) = snd (send_request file role unit now fs)"
  by (simp add: send_request_trace_def send_request_def Let_def split: sum.splits)

lemma send_response_trace_last:
  "snd (last (send_response_trace file role unit now fs)) = snd (send_response file role unit now fs)"
  by (simp add: send_response_trace_def send_response_def Let_def split: sum.splits)

lemma copy2_success:
  assumes "copy2 fs src dst = Inr fs'"
  obtains s d c where "resolve fs [] src = Some s" "fs s = Some (File c)"
    "resolve fs [] dst = Some d \<or> resolve fs [] (dst @ [last src]) = Some d"
    "d \<noteq> s" "fs d \<noteq> Some Dir" "fs' = fs(d \<mapsto> File c)"
  using assms by (auto simp: copy2_def copy2_target_def copyfile_iff split: if_splits)

lemma send_request_trace_cases:
  "send_request_trace file role unit now fs = [(Start, fs)] \<or>
   (\<exists>c fs1.
      role \<in> set valid_teams \<and> unit \<noteq> [] \<and> CHR ''/'' \<notin> set unit \<and>
      exists fs (requirements file unit) \<and>
      read_text fs (staged_request file) = Inr c \<and>
      mkdir_exist_ok fs (role_dir file role) = Inr fs1 \<and>
      (send_request_trace file role unit now fs = [(Start, fs), (MadeDir, fs1)]
       \<or> (\<exists>fs2. copy2 fs1 (staged_request file) (role_request file role) = Inr fs2 \<and>
            (send_request_trace file role unit now fs = [(Start, fs), (MadeDir, fs1), (Delivered, fs2)]
             \<or> (\<exists>fs3. copy2 fs2 (staged_request file) (request_archive file unit now role) = Inr fs3 \<and>
                  (send_request_trace file role unit now fs =
                     [(Start, fs), (MadeDir, fs1), (Delivered, fs2), (Archived, fs3)]
                   \<or> (\<exists>fs4. unlink fs3 (staged_request file) = Inr fs4 \<and>
                        send_request_trace file role unit now fs =
                          [(Start, fs), (MadeDir, fs1), (Delivered, fs2), (Archived, fs3),
                           (DeletedSource, fs4)])))))))"
  by (simp add: send_request_trace_def Let_def path_defs split: sum.splits)

lemma send_response_trace_cases:
  "send_response_trace file role unit now fs = [(Start, fs)] \<or>
   (\<exists>fs1.
      role \<in> set valid_teams \<and> unit \<noteq> [] \<and> CHR ''/'' \<notin> set unit \<and>
      exists fs (unit_dir file unit) \<and>
      copy2 fs (role_response file role) (plan_response file) = Inr fs1 \<and>
      (send_response_trace file role unit now fs = [(Start, fs), (Delivered, fs1)]
       \<or> (\<exists>fs2. copy2 fs1 (role_response file role) (response_archive file unit now role) = Inr fs2 \<and>
            (send_response_trace file role unit now fs = [(Start, fs), (Delivered, fs1), (Archived, fs2)]
             \<or> (\<exists>fs3. unlink fs2 (role_response file role) = Inr fs3 \<and>
                  (send_response_trace file role unit now fs =
                     [(Start, fs), (Delivered, fs1), (Archived, fs2), (DeletedSource, fs3)]
                   \<or> (\<exists>fs4. unlink fs3 (role_request file role) = Inr fs4 \<and>
                        send_response_trace file role unit now fs =
                          [(Start, fs), (Delivered, fs1), (Archived, fs2), (DeletedSource, fs3),
                           (DeletedRequest, fs4)])))))))"
  by (simp add: send_response_trace_def Let_def path_defs split: sum.splits)


lemma copy2_step:
  assumes "resolve fs [] src = Some s" "fs s = Some (File c)" "copy2 fs src dst = Inr fs'"
  obtains d where
    "resolve fs [] dst = Some d \<or> resolve fs [] (dst @ [last src]) = Some d"
    "d \<noteq> s" "fs d \<noteq> Some Dir" "fs' = fs(d \<mapsto> File c)" "same_dirs fs fs'"
proof -
  from assms(3) obtain s' d c' where
    *: "resolve fs [] src = Some s'" "fs s' = Some (File c')"
    "resolve fs [] dst = Some d \<or> resolve fs [] (dst @ [last src]) = Some d"
    "d \<noteq> s'" "fs d \<noteq> Some Dir" "fs' = fs(d \<mapsto> File c')"
    by (rule copy2_success)
  with assms(1,2) have "s' = s" "c' = c" by simp_all
  with * show thesis using that by (simp add: same_dirs_write)
qed

lemma unlink_step:
  assumes "resolve fs [] p = Some q" "unlink fs p = Inr fs'"
  shows "fs' = fs(q := None) \<and> same_dirs fs fs'"
  using assms by (auto simp: unlink_iff same_dirs_remove)

lemma holds_copyI:
  "resolve fs0 [] dst = Some d \<or> resolve fs0 [] (dst @ [base]) = Some d \<Longrightarrow>
   same_dirs fs0 fs \<Longrightarrow> fs d = Some (File c) \<Longrightarrow> holds_copy fs dst base c"
  by (auto simp: holds_copy_def read_text_iff same_dirs_resolve)

lemma last_staged_request: "last (staged_request file) = ''request.md''"
  by (simp add: staged_request_def joinpath_literals)

lemma last_role_response: "last (role_response file role) = ''response.md''"
  by (simp add: role_response_def joinpath_literals)

lemma mkdir_step:
  assumes "mkdir_exist_ok fs p = Inr fs1" "resolve fs [] src = Some s" "fs s = Some (File c)"
  shows "resolve fs1 [] src = Some s \<and> fs1 s = Some (File c)"
  using assms by (auto simp: mkdir_exist_ok_iff intro: resolve_mono)

lemma resolve_last:
  "resolve fs cur (xs @ [c]) = Some q \<Longrightarrow> c \<noteq> [] \<Longrightarrow> c \<noteq> ''.'' \<Longrightarrow> c \<noteq> ''..'' \<Longrightarrow> last q = c"
  by (auto simp: resolve_snoc)

lemma copy_target_last:
  assumes "resolve fs [] (xs @ [c]) = Some d \<or> resolve fs [] ((xs @ [c]) @ [b]) = Some d"
    and "c \<noteq> []" "c \<noteq> ''.''" "c \<noteq> ''..''" "b \<noteq> []" "b \<noteq> ''.''" "b \<noteq> ''..''"
  shows "last d = c \<or> last d = b"
  using assms(1)
proof
  assume "resolve fs [] (xs @ [c]) = Some d"
  then have "last d = c" using assms(2-4) by (rule resolve_last)
  then show ?thesis by simp
next
  assume "resolve fs [] ((xs @ [c]) @ [b]) = Some d"
  then have "last d = b" using assms(5-7) by (rule resolve_last)
  then show ?thesis by simp
qed

lemma copy2_fileI:
  assumes "\<not> isdir fs dst" "resolve fs [] src = Some s" "fs s = Some (File c)"
    "resolve fs [] dst = Some d" "d \<noteq> s"
  shows "copy2 fs src dst = Inr (fs(d \<mapsto> File c))"
proof -
  from assms(1,4) have "fs d \<noteq> Some Dir" by (simp add: isdir_iff)
  with assms show ?thesis by (simp add: copy2_def copy2_target_def copyfile_iff)
qed

lemma valid_team_not_plan: "role \<in> set valid_teams \<Longrightarrow> ''.'' @ role \<noteq> ''.plan''"
  by (auto simp: valid_teams_def)

lemma unit_dir_parts:
  "unit \<noteq> [] \<Longrightarrow> CHR ''/'' \<notin> set unit \<Longrightarrow>
   unit_dir file unit = project_root file @ [''.lifecycle''] @ (if unit = ''.'' then [] else [unit])"
  by (cases unit) (auto simp: unit_dir_def joinpath_def parts_def split_on_absent)

lemma nf_plan:
  "normpath [] (plan_dir file) = normpath [] (project_root file) @ [''.plan'']"
  "normpath [] (staged_request file) = normpath [] (project_root file) @ [''.plan'', ''request.md'']"
  "normpath [] (plan_response file) = normpath [] (project_root file) @ [''.plan'', ''response.md'']"
  by (simp_all add: plan_dir_def staged_request_def plan_response_def joinpath_literals
      normpath_append)

lemma nf_role:
  assumes "role \<in> set valid_teams"
  shows "normpath [] (role_dir file role) = normpath [] (project_root file) @ [''.'' @ role]"
    "normpath [] (role_request file role) =
       normpath [] (project_root file) @ [''.'' @ role, ''request.md'']"
    "normpath [] (role_response file role) =
       normpath [] (project_root file) @ [''.'' @ role, ''response.md'']"
  using assms
  by (auto simp: role_request_def role_response_def role_dir_snoc joinpath_literals
      normpath_append valid_teams_def)

lemma nf_unit_dir:
  assumes "unit \<noteq> []" "CHR ''/'' \<notin> set unit"
  shows "normpath [] (unit_dir file unit) =
     (if unit = ''.'' then normpath [] (project_root file) @ [''.lifecycle'']
      else if unit = ''..'' then normpath [] (project_root file)
      else normpath [] (project_root file) @ [''.lifecycle'', unit])"
  using assms by (simp add: unit_dir_parts normpath_append)

lemma mkdir_changes:
  "mkdir_exist_ok fs p = Inr fs' \<Longrightarrow> fs' x \<noteq> fs x \<Longrightarrow> x = normpath [] p \<and> fs x = None"
  by (auto simp: mkdir_exist_ok_iff dest: resolve_normpath split: if_splits)

lemma unlink_changes:
  "unlink fs p = Inr fs' \<Longrightarrow> fs' x \<noteq> fs x \<Longrightarrow> x = normpath [] p"
  by (auto simp: unlink_iff dest: resolve_normpath split: if_splits)

lemma copy2_changes:
  assumes "copy2 fs src dst = Inr fs'" "fs' x \<noteq> fs x"
  shows "resolve fs [] dst = Some x \<and> \<not> isdir fs dst
       \<or> resolve fs [] (dst @ [last src]) = Some x \<and> isdir fs dst"
  using assms by (auto simp: copy2_def copy2_target_def copyfile_iff split: if_splits)

lemma resolve_snocD:
  "resolve fs cur (xs @ [c]) = Some q \<Longrightarrow> \<exists>d. resolve fs cur xs = Some d"
  by (auto simp: resolve_append split: option.splits)

lemma nf_request_archive:
  assumes "role \<in> set valid_teams"
  shows "normpath [] (request_archive file unit now role) =
       normpath [] (unit_dir file unit) @ [strftime now @ ''_request_to_'' @ role @ ''.md'']"
    "normpath [] (request_archive file unit now role @ [b]) =
       normpath (normpath [] (unit_dir file unit) @ [strftime now @ ''_request_to_'' @ role @ ''.md'']) [b]"
  using assms by (simp_all add: request_archive_snoc normpath_append archive_name_proper)

lemma nf_response_archive:
  assumes "role \<in> set valid_teams"
  shows "normpath [] (response_archive file unit now role) =
       normpath [] (unit_dir file unit) @ [strftime now @ ''_response_from_'' @ role @ ''.md'']"
    "normpath [] (response_archive file unit now role @ [b]) =
       normpath (normpath [] (unit_dir file unit) @ [strftime now @ ''_response_from_'' @ role @ ''.md'']) [b]"
  using assms by (simp_all add: response_archive_snoc normpath_append archive_name_proper)

lemma nf_extended:
  "normpath [] (role_request file role @ [''request.md'']) =
     normpath [] (role_request file role) @ [''request.md'']"
  "normpath [] (plan_response file @ [''response.md'']) =
     normpath [] (plan_response file) @ [''response.md'']"
  by (simp_all add: normpath_append)

section \<open>Trees stay trees\<close>

text \<open>Both operations take trees to trees, however they end: the assumption that the
  file system is a tree, made for \<open>send_request\<close> above, holds of every state the
  protocol reaches from a tree.\<close>

lemma tree_fresh_parent:
  "tree fs \<Longrightarrow> resolve fs cur cs = Some q \<Longrightarrow> cs \<noteq> [] \<Longrightarrow> fs q = None \<Longrightarrow>
   q \<noteq> [] \<and> fs (butlast q) = Some Dir"
proof (induction cs arbitrary: cur)
  case Nil
  then show ?case by simp
next
  case (Cons c cs)
  from Cons.prems(2) have dir: "fs cur = Some Dir"
    by (auto split: option.splits node.splits)
  have up: "fs (butlast cur) = Some Dir"
    using Cons.prems(1) dir by (cases "cur = []") (auto simp: tree_def)
  define nxt where
    "nxt = (if c = [] \<or> c = ''.'' then cur else if c = ''..'' then butlast cur else cur @ [c])"
  from Cons.prems(2) dir have step: "resolve fs nxt cs = Some q"
    by (auto simp: nxt_def split: if_splits)
  show ?case
  proof (cases "cs = []")
    case True
    with step have "q = nxt" by simp
    with Cons.prems(4) dir up show ?thesis
      by (auto simp: nxt_def split: if_splits)
  next
    case False
    with Cons.IH [OF Cons.prems(1) step] Cons.prems(4) show ?thesis by simp
  qed
qed

lemma tree_write:
  assumes "tree fs" "resolve fs [] p = Some d" "fs d \<noteq> Some Dir"
  shows "tree (fs(d \<mapsto> File c))"
proof -
  have parent: "fs (butlast d) = Some Dir" if "d \<noteq> []"
  proof (cases "fs d")
    case None
    with assms(2) that have "p \<noteq> []" by auto
    with assms None show ?thesis by (auto dest: tree_fresh_parent)
  next
    case (Some n)
    with assms(1) that show ?thesis by (auto simp: tree_def)
  qed
  show ?thesis
    unfolding tree_def
  proof (intro allI impI)
    fix x
    assume x: "x \<noteq> []" "(fs(d \<mapsto> File c)) x \<noteq> None"
    have "fs (butlast x) = Some Dir"
      using x parent assms(1) by (cases "x = d") (auto simp: tree_def)
    with assms(3) show "(fs(d \<mapsto> File c)) (butlast x) = Some Dir" by auto
  qed
qed

lemma tree_remove:
  assumes "tree fs" "fs q = Some (File c)"
  shows "tree (fs(q := None))"
  unfolding tree_def
proof (intro allI impI)
  fix x
  assume x: "x \<noteq> []" "(fs(q := None)) x \<noteq> None"
  then have "fs (butlast x) = Some Dir" using assms(1) by (auto simp: tree_def split: if_splits)
  with assms(2) show "(fs(q := None)) (butlast x) = Some Dir" by auto
qed

lemma tree_mkdir:
  assumes "tree fs" "mkdir_exist_ok fs p = Inr fs'"
  shows "tree fs'"
proof -
  from assms(2) obtain q where q: "resolve fs [] p = Some q"
    and fs': "fs q = None \<and> fs' = fs(q \<mapsto> Dir) \<or> fs q = Some Dir \<and> fs' = fs"
    by (auto simp: mkdir_exist_ok_iff)
  from fs' show ?thesis
  proof
    assume h: "fs q = None \<and> fs' = fs(q \<mapsto> Dir)"
    have parent: "fs (butlast q) = Some Dir" if "q \<noteq> []"
    proof -
      from q that h have "p \<noteq> []" by auto
      with assms(1) q h show ?thesis by (auto dest: tree_fresh_parent)
    qed
    show ?thesis
      unfolding tree_def
    proof (intro allI impI)
      fix x
      assume x: "x \<noteq> []" "fs' x \<noteq> None"
      have "fs (butlast x) = Some Dir"
        using x parent assms(1) h by (cases "x = q") (auto simp: tree_def)
      with h show "fs' (butlast x) = Some Dir" by auto
    qed
  next
    assume "fs q = Some Dir \<and> fs' = fs"
    with assms(1) show ?thesis by simp
  qed
qed

lemma tree_copy2: "tree fs \<Longrightarrow> copy2 fs src dst = Inr fs' \<Longrightarrow> tree fs'"
  by (auto simp: copy2_def copyfile_iff intro: tree_write)

lemma tree_unlink: "tree fs \<Longrightarrow> unlink fs p = Inr fs' \<Longrightarrow> tree fs'"
  by (auto simp: unlink_iff intro: tree_remove)

lemma tree_send_request:
  assumes "tree fs"
  shows "tree (snd (send_request file role unit now fs))"
proof -
  let ?src = "staged_request file" and ?dst = "role_request file role"
  let ?arc = "request_archive file unit now role"
  let ?tr = "send_request_trace file role unit now fs"
  have "tree (snd (last ?tr))"
  proof (cases "?tr = [(Start, fs)]")
    case True
    with assms show ?thesis by simp
  next
    case False
    with send_request_trace_cases [of "file" "role" "unit" "now" "fs"] obtain c fs1 where
      mk: "mkdir_exist_ok fs (role_dir file role) = Inr fs1"
      and rest: "?tr = [(Start, fs), (MadeDir, fs1)]
       \<or> (\<exists>fs2. copy2 fs1 ?src ?dst = Inr fs2 \<and>
            (?tr = [(Start, fs), (MadeDir, fs1), (Delivered, fs2)]
             \<or> (\<exists>fs3. copy2 fs2 ?src ?arc = Inr fs3 \<and>
                  (?tr = [(Start, fs), (MadeDir, fs1), (Delivered, fs2), (Archived, fs3)]
                   \<or> (\<exists>fs4. unlink fs3 ?src = Inr fs4 \<and>
                        ?tr = [(Start, fs), (MadeDir, fs1), (Delivered, fs2), (Archived, fs3),
                           (DeletedSource, fs4)])))))"
      by blast
    from assms mk have t1: "tree fs1" by (rule tree_mkdir)
    from rest show ?thesis
    proof (elim disjE exE conjE)
      assume "?tr = [(Start, fs), (MadeDir, fs1)]"
      with t1 show ?thesis by simp
    next
      fix fs2
      assume "copy2 fs1 ?src ?dst = Inr fs2"
        and "?tr = [(Start, fs), (MadeDir, fs1), (Delivered, fs2)]"
      with t1 show ?thesis by (simp add: tree_copy2)
    next
      fix fs2 fs3
      assume c1: "copy2 fs1 ?src ?dst = Inr fs2" and c2: "copy2 fs2 ?src ?arc = Inr fs3"
        and tr: "?tr = [(Start, fs), (MadeDir, fs1), (Delivered, fs2), (Archived, fs3)]"
      from t1 c1 have "tree fs2" by (rule tree_copy2)
      from this c2 have "tree fs3" by (rule tree_copy2)
      with tr show ?thesis by simp
    next
      fix fs2 fs3 fs4
      assume c1: "copy2 fs1 ?src ?dst = Inr fs2" and c2: "copy2 fs2 ?src ?arc = Inr fs3"
        and u: "unlink fs3 ?src = Inr fs4"
        and tr: "?tr = [(Start, fs), (MadeDir, fs1), (Delivered, fs2), (Archived, fs3),
                           (DeletedSource, fs4)]"
      from t1 c1 have "tree fs2" by (rule tree_copy2)
      from this c2 have "tree fs3" by (rule tree_copy2)
      from this u have "tree fs4" by (rule tree_unlink)
      with tr show ?thesis by simp
    qed
  qed
  then show ?thesis by (simp add: send_request_trace_last)
qed

lemma tree_send_response:
  assumes "tree fs"
  shows "tree (snd (send_response file role unit now fs))"
proof -
  let ?src = "role_response file role" and ?dst = "plan_response file"
  let ?arc = "response_archive file unit now role" and ?req = "role_request file role"
  let ?tr = "send_response_trace file role unit now fs"
  have "tree (snd (last ?tr))"
  proof (cases "?tr = [(Start, fs)]")
    case True
    with assms show ?thesis by simp
  next
    case False
    with send_response_trace_cases [of "file" "role" "unit" "now" "fs"] obtain fs1 where
      c1: "copy2 fs ?src ?dst = Inr fs1"
      and rest: "?tr = [(Start, fs), (Delivered, fs1)]
       \<or> (\<exists>fs2. copy2 fs1 ?src ?arc = Inr fs2 \<and>
            (?tr = [(Start, fs), (Delivered, fs1), (Archived, fs2)]
             \<or> (\<exists>fs3. unlink fs2 ?src = Inr fs3 \<and>
                  (?tr = [(Start, fs), (Delivered, fs1), (Archived, fs2), (DeletedSource, fs3)]
                   \<or> (\<exists>fs4. unlink fs3 ?req = Inr fs4 \<and>
                        ?tr = [(Start, fs), (Delivered, fs1), (Archived, fs2), (DeletedSource, fs3),
                           (DeletedRequest, fs4)])))))"
      by blast
    from assms c1 have t1: "tree fs1" by (rule tree_copy2)
    from rest show ?thesis
    proof (elim disjE exE conjE)
      assume "?tr = [(Start, fs), (Delivered, fs1)]"
      with t1 show ?thesis by simp
    next
      fix fs2
      assume "copy2 fs1 ?src ?arc = Inr fs2"
        and "?tr = [(Start, fs), (Delivered, fs1), (Archived, fs2)]"
      with t1 show ?thesis by (simp add: tree_copy2)
    next
      fix fs2 fs3
      assume c2: "copy2 fs1 ?src ?arc = Inr fs2" and u: "unlink fs2 ?src = Inr fs3"
        and tr: "?tr = [(Start, fs), (Delivered, fs1), (Archived, fs2), (DeletedSource, fs3)]"
      from t1 c2 have "tree fs2" by (rule tree_copy2)
      from this u have "tree fs3" by (rule tree_unlink)
      with tr show ?thesis by simp
    next
      fix fs2 fs3 fs4
      assume c2: "copy2 fs1 ?src ?arc = Inr fs2" and u: "unlink fs2 ?src = Inr fs3"
        and ur: "unlink fs3 ?req = Inr fs4"
        and tr: "?tr = [(Start, fs), (Delivered, fs1), (Archived, fs2), (DeletedSource, fs3),
                           (DeletedRequest, fs4)]"
      from t1 c2 have "tree fs2" by (rule tree_copy2)
      from this u have "tree fs3" by (rule tree_unlink)
      from this ur have "tree fs4" by (rule tree_unlink)
      with tr show ?thesis by simp
    qed
  qed
  then show ?thesis by (simp add: send_response_trace_last)
qed

section \<open>The response needs no requirements\<close>

text \<open>
  C6, as the code has it. \<open>send_response\<close> does not ask for the requirements file:
  with a valid role and unit name, a staged response file, the unit directory in place
  and no \<^verbatim>\<open>.lifecycle/<unit>/requirements.md\<close>, it succeeds, provided the planner's
  directory \<^verbatim>\<open>.plan\<close> exists and none of \<^verbatim>\<open>.plan/response.md\<close>, the archive path and
  \<^verbatim>\<open>.<role>/request.md\<close> is a directory.
\<close>

theorem response_needs_no_requirements:
  assumes role: "role \<in> {''dev'', ''test'', ''review'', ''doc''}"
    and unit: "unit \<noteq> []" "CHR ''/'' \<notin> set unit" "CHR 0x5C \<notin> set unit"
    and staged: "read_text fs (role_response file role) = Inr c"
    and udir: "isdir fs (unit_dir file unit)"
    and noreq: "\<not> exists fs (requirements file unit)"
    and plan: "isdir fs (plan_dir file)"
    and nd: "\<not> isdir fs (plan_response file)"
    and na: "\<not> isdir fs (response_archive file unit now role)"
    and nr: "\<not> isdir fs (role_request file role)"
  shows "fst (send_response file role unit now fs) = Inr True"
proof -
  let ?src = "role_response file role" and ?dst = "plan_response file"
  let ?arc = "response_archive file unit now role" and ?req = "role_request file role"
  let ?name = "strftime now @ ''_response_from_'' @ role @ ''.md''"
  from role have valid: "role \<in> set valid_teams" by (simp add: valid_teams_def)
  have arc: "?arc = unit_dir file unit @ [?name]"
    using valid by (rule response_archive_snoc)
  from staged obtain s where s: "resolve fs [] ?src = Some s" "fs s = Some (File c)"
    by (auto simp: read_text_iff)
  then have ex_src: "exists fs ?src" by (auto simp: exists_iff)
  from udir have ex_unit: "exists fs (unit_dir file unit)" by (auto simp: isdir_iff exists_iff)
  have s_form: "s = normpath [] (project_root file) @ [''.'' @ role, ''response.md'']"
    using resolve_normpath [OF s(1)] by (simp add: nf_role [OF valid])
  from plan obtain d where d: "resolve fs [] ?dst = Some d"
    by (auto simp: isdir_iff plan_response_def joinpath_literals resolve_snoc)
  have d_form: "d = normpath [] (project_root file) @ [''.plan'', ''response.md'']"
    using resolve_normpath [OF d] by (simp add: nf_plan)
  have "d \<noteq> s" using s_form d_form valid_team_not_plan [OF valid] by auto
  with nd s d have c1: "copy2 fs ?src ?dst = Inr (fs(d \<mapsto> File c))"
    by (simp add: copy2_fileI)
  let ?fs1 = "fs(d \<mapsto> File c)"
  have "fs d \<noteq> Some Dir" using nd d by (simp add: isdir_iff)
  then have sd1: "same_dirs fs ?fs1" by (rule same_dirs_write)
  from udir obtain a where a: "resolve fs [] ?arc = Some a"
    by (auto simp: isdir_iff arc resolve_snoc archive_name_proper)
  then have "last a = ?name"
    unfolding arc by (rule resolve_last) (simp_all add: archive_name_proper)
  moreover have "last s = ''response.md''" using s_form by simp
  ultimately have "a \<noteq> s" by (auto simp: archive_name_proper)
  have "fs a \<noteq> Some Dir" using na a by (simp add: isdir_iff)
  have c2: "copy2 ?fs1 ?src ?arc = Inr (?fs1(a \<mapsto> File c))"
  proof (rule copy2_fileI)
    show "\<not> isdir ?fs1 ?arc" using na sd1 by (simp add: same_dirs_isdir)
    show "resolve ?fs1 [] ?src = Some s" using s sd1 by (simp add: same_dirs_resolve)
    show "?fs1 s = Some (File c)" using s by simp
    show "resolve ?fs1 [] ?arc = Some a" using a sd1 by (simp add: same_dirs_resolve)
    show "a \<noteq> s" by fact
  qed
  let ?fs2 = "?fs1(a \<mapsto> File c)"
  have sd2: "same_dirs fs ?fs2"
    using sd1 \<open>fs a \<noteq> Some Dir\<close> by (simp add: same_dirs_def)
  have u: "unlink ?fs2 ?src = Inr (?fs2(s := None))"
    using s sd2 \<open>a \<noteq> s\<close> \<open>d \<noteq> s\<close> by (simp add: unlink_iff same_dirs_resolve)
  let ?fs3 = "?fs2(s := None)"
  have sd3: "same_dirs fs ?fs3"
    using sd2 s by (auto simp: same_dirs_def)
  have r: "exists ?fs3 ?req \<Longrightarrow> \<exists>fs4. unlink ?fs3 ?req = Inr fs4"
  proof -
    assume "exists ?fs3 ?req"
    then obtain q where q: "resolve ?fs3 [] ?req = Some q" "?fs3 q \<noteq> None"
      by (auto simp: exists_iff)
    have "\<not> isdir ?fs3 ?req" using nr sd3 by (simp add: same_dirs_isdir)
    with q have "?fs3 q \<noteq> Some Dir" by (simp add: isdir_iff)
    with q obtain c' where "?fs3 q = Some (File c')"
      by (cases "?fs3 q") (auto, metis node.exhaust)
    with q show ?thesis by (auto simp: unlink_iff)
  qed
  show ?thesis
  proof (cases "exists ?fs3 ?req")
    case True
    with r obtain fs4 where "unlink ?fs3 ?req = Inr fs4" by blast
    with True valid unit ex_src ex_unit c1 c2 u show ?thesis
      by (simp add: send_response_def Let_def path_defs)
  next
    case False
    with valid unit ex_src ex_unit c1 c2 u show ?thesis
      by (simp add: send_response_def Let_def path_defs)
  qed
qed

text \<open>In the example the unit has no requirements: the response goes through, and
  \<open>send_request\<close> on the same state is refused.\<close>

theorem response_needs_no_requirements_witness:
  "\<not> exists demo_answered (requirements response_script ''demo'') \<and>
   fst (send_response response_script ''dev'' ''demo'' demo_now demo_answered) = Inr True \<and>
   fst (send_request request_script ''dev'' ''demo'' demo_now demo_answered) = Inr False"
proof -
  have h: "''dev'' \<in> {''dev'', ''test'', ''review'', ''doc''}" "''demo'' \<noteq> []"
    "CHR ''/'' \<notin> set ''demo''" "CHR 0x5C \<notin> set ''demo''"
    by simp_all
  have staged: "read_text demo_answered (role_response response_script ''dev'') = Inr ''done''"
    and udir: "isdir demo_answered (unit_dir response_script ''demo'')"
    and noreq: "\<not> exists demo_answered (requirements response_script ''demo'')"
    and plan: "isdir demo_answered (plan_dir response_script)"
    and nd: "\<not> isdir demo_answered (plan_response response_script)"
    and na: "\<not> isdir demo_answered (response_archive response_script ''demo'' demo_now ''dev'')"
    and nr: "\<not> isdir demo_answered (role_request response_script ''dev'')"
    by (simp_all add: path_defs library_defs demo_defs)
  have "fst (send_request request_script ''dev'' ''demo'' demo_now demo_answered) = Inr False"
    by (simp add: run_defs library_defs demo_defs)
  then show ?thesis
    using response_needs_no_requirements [OF h staged udir noreq plan nd na nr] noreq by simp
qed

text \<open>
  C6 as stated does not hold of every such state: \<open>send_response\<close> never creates
  \<^verbatim>\<open>.plan\<close>, and without it \<^verbatim>\<open>shutil.copy2\<close> raises.
\<close>

theorem response_without_plan_dir:
  "read_text (demo_answered([''w'', ''.plan''] := None)) (role_response response_script ''dev'') = Inr ''done'' \<and>
   isdir (demo_answered([''w'', ''.plan''] := None)) (unit_dir response_script ''demo'') \<and>
   \<not> exists (demo_answered([''w'', ''.plan''] := None)) (requirements response_script ''demo'') \<and>
   fst (send_response response_script ''dev'' ''demo'' demo_now (demo_answered([''w'', ''.plan''] := None)))
     = Inl PathError"
  by (simp add: run_defs path_defs library_defs demo_defs)

section \<open>Retrying a response\<close>

lemma send_response_source_gone:
  assumes "send_response file role unit now fs = (Inr True, fs')"
  shows "role \<in> set valid_teams \<and> \<not> exists fs' (role_response file role)"
proof -
  let ?src = "role_response file role"
  from assms obtain fs1 fs2 fs3 where
    role: "role \<in> set valid_teams"
    and c1: "copy2 fs ?src (plan_response file) = Inr fs1"
    and c2: "copy2 fs1 ?src (response_archive file unit now role) = Inr fs2"
    and u: "unlink fs2 ?src = Inr fs3"
    and r: "exists fs3 (role_request file role) \<and> unlink fs3 (role_request file role) = Inr fs'
       \<or> \<not> exists fs3 (role_request file role) \<and> fs' = fs3"
    by (rule send_response_success)
  from c1 obtain s c where s: "resolve fs [] ?src = Some s" "fs s = Some (File c)"
    by (rule copy2_success)
  from s c1 obtain d where d: "d \<noteq> s" "fs1 = fs(d \<mapsto> File c)" "same_dirs fs fs1"
    by (rule copy2_step)
  then have s1: "resolve fs1 [] ?src = Some s" "fs1 s = Some (File c)"
    using s by (simp_all add: same_dirs_resolve)
  from s1 c2 obtain a where a: "a \<noteq> s" "fs2 = fs1(a \<mapsto> File c)" "same_dirs fs1 fs2"
    by (rule copy2_step)
  then have s2: "resolve fs2 [] ?src = Some s"
    using s1 by (simp add: same_dirs_resolve)
  from unlink_step [OF s2 u] have fs3: "fs3 = fs2(s := None)" "same_dirs fs2 fs3"
    by blast+
  then have s3: "resolve fs3 [] ?src = Some s" "fs3 s = None"
    using s2 by (simp_all add: same_dirs_resolve)
  from r have "resolve fs' [] ?src = Some s \<and> fs' s = None"
  proof
    assume "exists fs3 (role_request file role) \<and> unlink fs3 (role_request file role) = Inr fs'"
    then obtain q where "fs' = fs3(q := None)" "same_dirs fs3 fs'"
      by (auto simp: unlink_iff same_dirs_remove)
    then show ?thesis using s3 by (simp add: same_dirs_resolve)
  next
    assume "\<not> exists fs3 (role_request file role) \<and> fs' = fs3"
    then show ?thesis using s3 by simp
  qed
  then show ?thesis using role by (simp add: exists_iff)
qed

text \<open>
  C9. After a successful \<open>send_response\<close>, running it again for the same role, with
  nothing newly staged, returns failure and leaves the file system, the delivered
  \<^verbatim>\<open>.plan/response.md\<close> and every archive entry included, exactly as it was.
\<close>

theorem resend_rejected:
  assumes "send_response file role unit now fs = (Inr True, fs')"
  shows "send_response file role unit' now' fs' = (Inr False, fs')"
proof -
  from assms have "role \<in> set valid_teams" "\<not> exists fs' (role_response file role)"
    by (simp_all add: send_response_source_gone)
  then show ?thesis
    by (simp add: send_response_def Let_def path_defs)
qed

theorem resend_rejected_witness:
  "fst (send_response response_script ''dev'' ''demo'' demo_now demo_answered) = Inr True \<and>
   fst (send_response response_script ''dev'' ''demo'' demo_now
          (snd (send_response response_script ''dev'' ''demo'' demo_now demo_answered))) = Inr False \<and>
   read_text (snd (send_response response_script ''dev'' ''demo'' demo_now
          (snd (send_response response_script ''dev'' ''demo'' demo_now demo_answered))))
     (plan_response response_script) = Inr ''done''"
proof -
  let ?run = "send_response response_script ''dev'' ''demo'' demo_now demo_answered"
  have ok: "fst ?run = Inr True"
    by (simp add: run_defs library_defs demo_defs)
  then have run: "?run = (Inr True, snd ?run)"
    by (simp add: prod_eq_iff)
  have "read_text (snd ?run) (plan_response response_script) = Inr ''done''"
    by (simp add: run_defs path_defs library_defs demo_defs)
  then show ?thesis
    using resend_rejected [OF run, of "''demo''" demo_now] ok by simp
qed

section \<open>Copy, then delete\<close>

lemma request_trace_safe:
  "prefix (map fst (send_request_trace file role unit now fs))
     [Start, MadeDir, Delivered, Archived, DeletedSource] \<and>
   snd (last (send_request_trace file role unit now fs)) = snd (send_request file role unit now fs) \<and>
   (\<forall>(l, t) \<in> set (send_request_trace file role unit now fs).
      if l = DeletedSource
      then \<exists>c. read_text fs (staged_request file) = Inr c \<and>
             holds_copy t (role_request file role) ''request.md'' c \<and>
             holds_copy t (request_archive file unit now role) ''request.md'' c
      else read_text t (staged_request file) = read_text fs (staged_request file))"
proof -
  let ?src = "staged_request file" and ?dst = "role_request file role"
  let ?arc = "request_archive file unit now role"
  let ?tr = "send_request_trace file role unit now fs"
  have "prefix (map fst ?tr) [Start, MadeDir, Delivered, Archived, DeletedSource] \<and>
   (\<forall>(l, t) \<in> set ?tr.
      if l = DeletedSource
      then \<exists>c. read_text fs ?src = Inr c \<and>
             holds_copy t ?dst ''request.md'' c \<and> holds_copy t ?arc ''request.md'' c
      else read_text t ?src = read_text fs ?src)"
  proof (cases "?tr = [(Start, fs)]")
    case True
    then show ?thesis by simp
  next
    case False
    with send_request_trace_cases [of "file" "role" "unit" "now" "fs"] obtain c fs1 where
      staged: "read_text fs ?src = Inr c"
      and mk: "mkdir_exist_ok fs (role_dir file role) = Inr fs1"
      and rest: "?tr = [(Start, fs), (MadeDir, fs1)]
       \<or> (\<exists>fs2. copy2 fs1 ?src ?dst = Inr fs2 \<and>
            (?tr = [(Start, fs), (MadeDir, fs1), (Delivered, fs2)]
             \<or> (\<exists>fs3. copy2 fs2 ?src ?arc = Inr fs3 \<and>
                  (?tr = [(Start, fs), (MadeDir, fs1), (Delivered, fs2), (Archived, fs3)]
                   \<or> (\<exists>fs4. unlink fs3 ?src = Inr fs4 \<and>
                        ?tr = [(Start, fs), (MadeDir, fs1), (Delivered, fs2), (Archived, fs3),
                           (DeletedSource, fs4)])))))"
      by blast
    from staged obtain s where s: "resolve fs [] ?src = Some s" "fs s = Some (File c)"
      by (auto simp: read_text_iff)
    from mkdir_step [OF mk s] have s1: "resolve fs1 [] ?src = Some s" "fs1 s = Some (File c)"
      by simp_all
    then have r1: "read_text fs1 ?src = Inr c" by (auto simp: read_text_iff)
    from rest show ?thesis
    proof (elim disjE exE conjE)
      assume "?tr = [(Start, fs), (MadeDir, fs1)]"
      then show ?thesis using staged r1 by simp
    next
      fix fs2
      assume c1: "copy2 fs1 ?src ?dst = Inr fs2"
        and tr: "?tr = [(Start, fs), (MadeDir, fs1), (Delivered, fs2)]"
      from s1 c1 obtain d where d: "d \<noteq> s" "fs2 = fs1(d \<mapsto> File c)" "same_dirs fs1 fs2"
        by (rule copy2_step)
      then have "read_text fs2 ?src = Inr c"
        using s1 by (auto simp: read_text_iff same_dirs_resolve)
      then show ?thesis using tr staged r1 by simp
    next
      fix fs2 fs3
      assume c1: "copy2 fs1 ?src ?dst = Inr fs2" and c2: "copy2 fs2 ?src ?arc = Inr fs3"
        and tr: "?tr = [(Start, fs), (MadeDir, fs1), (Delivered, fs2), (Archived, fs3)]"
      from s1 c1 obtain d where d: "d \<noteq> s" "fs2 = fs1(d \<mapsto> File c)" "same_dirs fs1 fs2"
        by (rule copy2_step)
      then have s2: "resolve fs2 [] ?src = Some s" "fs2 s = Some (File c)"
        using s1 by (simp_all add: same_dirs_resolve)
      from s2 c2 obtain a where a: "a \<noteq> s" "fs3 = fs2(a \<mapsto> File c)" "same_dirs fs2 fs3"
        by (rule copy2_step)
      then have s3: "resolve fs3 [] ?src = Some s" "fs3 s = Some (File c)"
        using s2 by (simp_all add: same_dirs_resolve)
      have "read_text fs2 ?src = Inr c" "read_text fs3 ?src = Inr c"
        using s2 s3 by (auto simp: read_text_iff)
      then show ?thesis using tr staged r1 by simp
    next
      fix fs2 fs3 fs4
      assume c1: "copy2 fs1 ?src ?dst = Inr fs2" and c2: "copy2 fs2 ?src ?arc = Inr fs3"
        and u: "unlink fs3 ?src = Inr fs4"
        and tr: "?tr = [(Start, fs), (MadeDir, fs1), (Delivered, fs2), (Archived, fs3),
                           (DeletedSource, fs4)]"
      from s1 c1 obtain d where d: "resolve fs1 [] ?dst = Some d \<or> resolve fs1 [] (?dst @ [last ?src]) = Some d"
        "d \<noteq> s" "fs2 = fs1(d \<mapsto> File c)" "same_dirs fs1 fs2"
        by (rule copy2_step)
      then have s2: "resolve fs2 [] ?src = Some s" "fs2 s = Some (File c)"
        using s1 by (simp_all add: same_dirs_resolve)
      from s2 c2 obtain a where a: "resolve fs2 [] ?arc = Some a \<or> resolve fs2 [] (?arc @ [last ?src]) = Some a"
        "a \<noteq> s" "fs3 = fs2(a \<mapsto> File c)" "same_dirs fs2 fs3"
        by (rule copy2_step)
      then have s3: "resolve fs3 [] ?src = Some s" "fs3 s = Some (File c)"
        using s2 by (simp_all add: same_dirs_resolve)
      from unlink_step [OF s3(1) u] have fs4: "fs4 = fs3(s := None)" "same_dirs fs3 fs4"
        by blast+
      have sd24: "same_dirs fs2 fs4" using a(4) fs4(2) by (rule same_dirs_trans)
      have sd14: "same_dirs fs1 fs4" using d(4) sd24 by (rule same_dirs_trans)
      have "fs4 d = Some (File c)" "fs4 a = Some (File c)"
        using fs4 a d by auto
      then have "holds_copy fs4 ?dst ''request.md'' c" "holds_copy fs4 ?arc ''request.md'' c"
        using d(1) a(1) sd14 sd24 by (auto simp: last_staged_request intro: holds_copyI)
      moreover have "read_text fs2 ?src = Inr c" "read_text fs3 ?src = Inr c"
        using s2 s3 by (auto simp: read_text_iff)
      ultimately show ?thesis using tr staged r1 by simp
    qed
  qed
  then show ?thesis by (simp add: send_request_trace_last)
qed


lemma response_trace_safe:
  "prefix (map fst (send_response_trace file role unit now fs))
     [Start, Delivered, Archived, DeletedSource, DeletedRequest] \<and>
   snd (last (send_response_trace file role unit now fs)) = snd (send_response file role unit now fs) \<and>
   (\<forall>(l, t) \<in> set (send_response_trace file role unit now fs).
      if l = DeletedSource \<or> l = DeletedRequest
      then \<exists>c. read_text fs (role_response file role) = Inr c \<and>
             holds_copy t (plan_response file) ''response.md'' c \<and>
             holds_copy t (response_archive file unit now role) ''response.md'' c
      else read_text t (role_response file role) = read_text fs (role_response file role))"
proof -
  let ?src = "role_response file role" and ?dst = "plan_response file"
  let ?arc = "response_archive file unit now role"
  let ?req = "role_request file role"
  let ?tr = "send_response_trace file role unit now fs"
  have "prefix (map fst ?tr) [Start, Delivered, Archived, DeletedSource, DeletedRequest] \<and>
   (\<forall>(l, t) \<in> set ?tr.
      if l = DeletedSource \<or> l = DeletedRequest
      then \<exists>c. read_text fs ?src = Inr c \<and>
             holds_copy t ?dst ''response.md'' c \<and> holds_copy t ?arc ''response.md'' c
      else read_text t ?src = read_text fs ?src)"
  proof (cases "?tr = [(Start, fs)]")
    case True
    then show ?thesis by simp
  next
    case False
    with send_response_trace_cases [of "file" "role" "unit" "now" "fs"] obtain fs1 where
      role: "role \<in> set valid_teams"
      and c1: "copy2 fs ?src ?dst = Inr fs1"
      and rest: "?tr = [(Start, fs), (Delivered, fs1)]
       \<or> (\<exists>fs2. copy2 fs1 ?src ?arc = Inr fs2 \<and>
            (?tr = [(Start, fs), (Delivered, fs1), (Archived, fs2)]
             \<or> (\<exists>fs3. unlink fs2 ?src = Inr fs3 \<and>
                  (?tr = [(Start, fs), (Delivered, fs1), (Archived, fs2), (DeletedSource, fs3)]
                   \<or> (\<exists>fs4. unlink fs3 ?req = Inr fs4 \<and>
                        ?tr = [(Start, fs), (Delivered, fs1), (Archived, fs2), (DeletedSource, fs3),
                           (DeletedRequest, fs4)])))))"
      by blast
    from c1 obtain s c where s: "resolve fs [] ?src = Some s" "fs s = Some (File c)"
      by (rule copy2_success)
    then have staged: "read_text fs ?src = Inr c" by (auto simp: read_text_iff)
    from s c1 obtain d where d: "resolve fs [] ?dst = Some d \<or> resolve fs [] (?dst @ [last ?src]) = Some d"
      "d \<noteq> s" "fs1 = fs(d \<mapsto> File c)" "same_dirs fs fs1"
      by (rule copy2_step)
    then have s1: "resolve fs1 [] ?src = Some s" "fs1 s = Some (File c)"
      using s by (simp_all add: same_dirs_resolve)
    then have r1: "read_text fs1 ?src = Inr c" by (auto simp: read_text_iff)
    from rest show ?thesis
    proof (elim disjE exE conjE)
      assume "?tr = [(Start, fs), (Delivered, fs1)]"
      then show ?thesis using staged r1 by simp
    next
      fix fs2
      assume c2: "copy2 fs1 ?src ?arc = Inr fs2"
        and tr: "?tr = [(Start, fs), (Delivered, fs1), (Archived, fs2)]"
      from s1 c2 obtain a where a: "a \<noteq> s" "fs2 = fs1(a \<mapsto> File c)" "same_dirs fs1 fs2"
        by (rule copy2_step)
      then have "read_text fs2 ?src = Inr c"
        using s1 by (auto simp: read_text_iff same_dirs_resolve)
      then show ?thesis using tr staged r1 by simp
    next
      fix fs2 fs3
      assume c2: "copy2 fs1 ?src ?arc = Inr fs2" and u: "unlink fs2 ?src = Inr fs3"
        and tr: "?tr = [(Start, fs), (Delivered, fs1), (Archived, fs2), (DeletedSource, fs3)]"
      from s1 c2 obtain a where a: "resolve fs1 [] ?arc = Some a \<or> resolve fs1 [] (?arc @ [last ?src]) = Some a"
        "a \<noteq> s" "fs2 = fs1(a \<mapsto> File c)" "same_dirs fs1 fs2"
        by (rule copy2_step)
      then have s2: "resolve fs2 [] ?src = Some s" "fs2 s = Some (File c)"
        using s1 by (simp_all add: same_dirs_resolve)
      then have r2: "read_text fs2 ?src = Inr c" by (auto simp: read_text_iff)
      from unlink_step [OF s2(1) u] have fs3: "fs3 = fs2(s := None)" "same_dirs fs2 fs3"
        by blast+
      have sd13: "same_dirs fs1 fs3" using a(4) fs3(2) by (rule same_dirs_trans)
      have sd03: "same_dirs fs fs3" using d(4) sd13 by (rule same_dirs_trans)
      have "fs3 d = Some (File c)" "fs3 a = Some (File c)"
        using fs3 a d by auto
      then have "holds_copy fs3 ?dst ''response.md'' c" "holds_copy fs3 ?arc ''response.md'' c"
        using d(1) a(1) sd03 sd13 by (auto simp: last_role_response intro: holds_copyI)
      then show ?thesis using tr staged r1 r2 by simp
    next
      fix fs2 fs3 fs4
      assume c2: "copy2 fs1 ?src ?arc = Inr fs2" and u: "unlink fs2 ?src = Inr fs3"
        and ur: "unlink fs3 ?req = Inr fs4"
        and tr: "?tr = [(Start, fs), (Delivered, fs1), (Archived, fs2), (DeletedSource, fs3),
                           (DeletedRequest, fs4)]"
      from s1 c2 obtain a where a: "resolve fs1 [] ?arc = Some a \<or> resolve fs1 [] (?arc @ [last ?src]) = Some a"
        "a \<noteq> s" "fs2 = fs1(a \<mapsto> File c)" "same_dirs fs1 fs2"
        by (rule copy2_step)
      then have s2: "resolve fs2 [] ?src = Some s" "fs2 s = Some (File c)"
        using s1 by (simp_all add: same_dirs_resolve)
      then have r2: "read_text fs2 ?src = Inr c" by (auto simp: read_text_iff)
      from unlink_step [OF s2(1) u] have fs3: "fs3 = fs2(s := None)" "same_dirs fs2 fs3"
        by blast+
      from ur obtain r where r: "resolve fs3 [] ?req = Some r" "fs4 = fs3(r := None)" "same_dirs fs3 fs4"
        by (auto simp: unlink_iff same_dirs_remove)
      have sd13: "same_dirs fs1 fs3" using a(4) fs3(2) by (rule same_dirs_trans)
      have sd03: "same_dirs fs fs3" using d(4) sd13 by (rule same_dirs_trans)
      have sd14: "same_dirs fs1 fs4" using sd13 r(3) by (rule same_dirs_trans)
      have sd04: "same_dirs fs fs4" using sd03 r(3) by (rule same_dirs_trans)
      have "last r = ''request.md''"
        using r(1) by (auto simp: role_request_def joinpath_literals dest: resolve_last)
      moreover have "last d = ''response.md''"
        using d(1) copy_target_last [of fs "plan_dir file" "''response.md''" d "''response.md''"]
        by (simp add: plan_response_def joinpath_literals last_role_response)
      moreover have "last a = strftime now @ ''_response_from_'' @ role @ ''.md'' \<or> last a = ''response.md''"
        using a(1) role
          copy_target_last [of fs1 "unit_dir file unit" "strftime now @ ''_response_from_'' @ role @ ''.md''"
            a "''response.md''"]
        by (simp add: response_archive_snoc last_role_response archive_name_proper)
      ultimately have "r \<noteq> d" "r \<noteq> a"
        by (auto simp: archive_name_proper)
      then have "fs4 d = Some (File c)" "fs4 a = Some (File c)"
        using r fs3 a d by auto
      then have "holds_copy fs4 ?dst ''response.md'' c" "holds_copy fs4 ?arc ''response.md'' c"
        using d(1) a(1) sd04 sd14 by (auto simp: last_role_response intro: holds_copyI)
      moreover have "fs3 d = Some (File c)" "fs3 a = Some (File c)"
        using fs3 a d by auto
      then have "holds_copy fs3 ?dst ''response.md'' c" "holds_copy fs3 ?arc ''response.md'' c"
        using d(1) a(1) sd03 sd13 by (auto simp: last_role_response intro: holds_copyI)
      ultimately show ?thesis using tr staged r1 r2 by simp
    qed
  qed
  then show ?thesis by (simp add: send_response_trace_last)
qed

text \<open>
  C7. In both operations the steps taken are an initial part of: (create the role's
  directory,) copy to the destination, copy to the archive, delete the source (, delete
  the fulfilled request). In every state before the source is deleted the staged file
  reads as it did at the start; in every state from then on both copies hold its text.
  So whenever a run stops, the artifact is present in at least one place.
\<close>

theorem copy_then_delete:
  "(prefix (map fst (send_request_trace file role unit now fs))
      [Start, MadeDir, Delivered, Archived, DeletedSource] \<and>
    snd (last (send_request_trace file role unit now fs)) = snd (send_request file role unit now fs) \<and>
    (\<forall>(l, t) \<in> set (send_request_trace file role unit now fs).
       if l = DeletedSource
       then \<exists>c. read_text fs (staged_request file) = Inr c \<and>
              holds_copy t (role_request file role) ''request.md'' c \<and>
              holds_copy t (request_archive file unit now role) ''request.md'' c
       else read_text t (staged_request file) = read_text fs (staged_request file))) \<and>
   (prefix (map fst (send_response_trace file role unit now fs))
      [Start, Delivered, Archived, DeletedSource, DeletedRequest] \<and>
    snd (last (send_response_trace file role unit now fs)) = snd (send_response file role unit now fs) \<and>
    (\<forall>(l, t) \<in> set (send_response_trace file role unit now fs).
       if l = DeletedSource \<or> l = DeletedRequest
       then \<exists>c. read_text fs (role_response file role) = Inr c \<and>
              holds_copy t (plan_response file) ''response.md'' c \<and>
              holds_copy t (response_archive file unit now role) ''response.md'' c
       else read_text t (role_response file role) = read_text fs (role_response file role)))"
  by (rule conjI [OF request_trace_safe response_trace_safe])

theorem copy_then_delete_witness:
  "map fst (send_request_trace request_script ''dev'' ''demo'' demo_now demo_staged)
     = [Start, MadeDir, Delivered, Archived, DeletedSource] \<and>
   read_text (snd (send_request_trace request_script ''dev'' ''demo'' demo_now demo_staged ! 3))
     (staged_request request_script) = Inr ''see .lifecycle/demo/requirements.md'' \<and>
   holds_copy (snd (send_request_trace request_script ''dev'' ''demo'' demo_now demo_staged ! 4))
     (role_request request_script ''dev'') ''request.md'' ''see .lifecycle/demo/requirements.md'' \<and>
   holds_copy (snd (send_request_trace request_script ''dev'' ''demo'' demo_now demo_staged ! 4))
     (request_archive request_script ''demo'' demo_now ''dev'') ''request.md''
     ''see .lifecycle/demo/requirements.md'' \<and>
   map fst (send_response_trace response_script ''dev'' ''demo'' demo_now demo_answered)
     = [Start, Delivered, Archived, DeletedSource, DeletedRequest] \<and>
   read_text (snd (send_response_trace response_script ''dev'' ''demo'' demo_now demo_answered ! 2))
     (role_response response_script ''dev'') = Inr ''done'' \<and>
   holds_copy (snd (send_response_trace response_script ''dev'' ''demo'' demo_now demo_answered ! 3))
     (plan_response response_script) ''response.md'' ''done'' \<and>
   holds_copy (snd (send_response_trace response_script ''dev'' ''demo'' demo_now demo_answered ! 3))
     (response_archive response_script ''demo'' demo_now ''dev'') ''response.md'' ''done''"
  using copy_then_delete [of request_script "''dev''" "''demo''" demo_now demo_staged, THEN conjunct1]
    copy_then_delete [of response_script "''dev''" "''demo''" demo_now demo_answered, THEN conjunct2]
  by (simp add: trace_defs run_defs holds_copy_def path_defs library_defs demo_defs)

section \<open>What a run can change\<close>

lemma send_request_changes:
  assumes "snd (send_request file role unit now fs) x \<noteq> fs x"
  shows "role \<in> set valid_teams \<and> unit \<noteq> [] \<and> CHR ''/'' \<notin> set unit \<and>
     (x = normpath [] (role_dir file role) \<and> fs x = None \<or>
      x = normpath [] (role_request file role) \<or>
      x = normpath [] (role_request file role @ [''request.md'']) \<or>
      resolve fs [] (request_archive file unit now role) = Some x \<or>
      x = normpath [] (request_archive file unit now role @ [''request.md'']) \<and>
        isdir fs (request_archive file unit now role) \<or>
      x = normpath [] (staged_request file))"
    (is "_ \<and> _ \<and> _ \<and> ?P")
proof -
  let ?src = "staged_request file" and ?dst = "role_request file role"
  let ?arc = "request_archive file unit now role"
  let ?name = "strftime now @ ''_request_to_'' @ role @ ''.md''"
  let ?tr = "send_request_trace file role unit now fs"
  from assms have changed: "snd (last ?tr) x \<noteq> fs x"
    by (simp add: send_request_trace_last)
  then have "?tr \<noteq> [(Start, fs)]" by auto
  with send_request_trace_cases [of "file" "role" "unit" "now" "fs"] obtain c fs1 where
    role: "role \<in> set valid_teams" and unit: "unit \<noteq> []" "CHR ''/'' \<notin> set unit"
    and req: "exists fs (requirements file unit)"
    and mk: "mkdir_exist_ok fs (role_dir file role) = Inr fs1"
    and rest: "?tr = [(Start, fs), (MadeDir, fs1)]
       \<or> (\<exists>fs2. copy2 fs1 ?src ?dst = Inr fs2 \<and>
            (?tr = [(Start, fs), (MadeDir, fs1), (Delivered, fs2)]
             \<or> (\<exists>fs3. copy2 fs2 ?src ?arc = Inr fs3 \<and>
                  (?tr = [(Start, fs), (MadeDir, fs1), (Delivered, fs2), (Archived, fs3)]
                   \<or> (\<exists>fs4. unlink fs3 ?src = Inr fs4 \<and>
                        ?tr = [(Start, fs), (MadeDir, fs1), (Delivered, fs2), (Archived, fs3),
                           (DeletedSource, fs4)])))))"
    by blast
  have arc: "?arc = unit_dir file unit @ [?name]"
    using role by (rule request_archive_snoc)
  from req obtain l where l: "resolve fs [] (unit_dir file unit) = Some l" "fs l = Some Dir"
    by (auto simp: exists_iff requirements_def joinpath_literals resolve_snoc)
  then have a0: "resolve fs [] ?arc = Some (l @ [?name])"
    by (simp add: arc resolve_snoc archive_name_proper)
  have q: "normpath [] (role_dir file role) = normpath [] (project_root file) @ [''.'' @ role]"
    using role by (rule nf_role)
  have grow: "fs p = Some Dir \<Longrightarrow> fs1 p = Some Dir" for p
    using mk by (auto simp: mkdir_exist_ok_iff)
  have a1: "resolve fs1 [] ?arc = Some (l @ [?name])"
    using a0 grow by (rule resolve_mono)
  have st1: "fs1 x \<noteq> fs x \<Longrightarrow> ?P"
  proof -
    assume "fs1 x \<noteq> fs x"
    with mk have "x = normpath [] (role_dir file role) \<and> fs x = None" by (rule mkdir_changes)
    then show ?P by blast
  qed
  have st2: "?P" if c1: "copy2 fs1 ?src ?dst = Inr fs2" and ch: "fs2 x \<noteq> fs1 x" for fs2
  proof -
    from copy2_changes [OF c1 ch]
    have "x = normpath [] ?dst \<or> x = normpath [] (?dst @ [''request.md''])"
      by (auto dest!: resolve_normpath simp: last_staged_request)
    then show ?thesis by blast
  qed
  have st3: "?P" if c1: "copy2 fs1 ?src ?dst = Inr fs2" and c2: "copy2 fs2 ?src ?arc = Inr fs3"
    and ch: "fs3 x \<noteq> fs2 x" for fs2 fs3
  proof -
    from c1 have sd: "same_dirs fs1 fs2"
      by (rule copy2_success) (simp add: same_dirs_write)
    from copy2_changes [OF c2 ch] show ?thesis
    proof (elim disjE conjE)
      assume "resolve fs2 [] ?arc = Some x"
      then have "x = l @ [?name]" using a1 sd by (simp add: same_dirs_resolve)
      then have "resolve fs [] ?arc = Some x" using a0 by simp
      then show ?thesis by blast
    next
      assume x: "resolve fs2 [] (?arc @ [last ?src]) = Some x" and "isdir fs2 ?arc"
      then have "isdir fs1 ?arc" using sd by (simp add: same_dirs_isdir)
      then have "fs1 (l @ [?name]) = Some Dir" using a1 by (simp add: isdir_iff)
      moreover have "l @ [?name] \<noteq> normpath [] (role_dir file role)"
        by (simp add: q archive_name_not_role)
      ultimately have "fs (l @ [?name]) = Some Dir"
        using mkdir_changes [OF mk, of "l @ [?name]"] by metis
      then have "isdir fs ?arc" using a0 by (simp add: isdir_iff)
      moreover have "x = normpath [] (?arc @ [''request.md''])"
        using resolve_normpath [OF x] by (simp add: last_staged_request)
      ultimately show ?thesis by blast
    qed
  qed
  have st4: "fs4 x \<noteq> fs3 x \<Longrightarrow> unlink fs3 ?src = Inr fs4 \<Longrightarrow> ?P" for fs3 fs4
  proof -
    assume "fs4 x \<noteq> fs3 x" "unlink fs3 ?src = Inr fs4"
    then have "x = normpath [] ?src" by (auto dest: unlink_changes)
    then show ?P by blast
  qed
  from rest have ?P
  proof (elim disjE exE conjE)
    assume "?tr = [(Start, fs), (MadeDir, fs1)]"
    with changed show ?P using st1 by simp
  next
    fix fs2
    assume c1: "copy2 fs1 ?src ?dst = Inr fs2"
      and "?tr = [(Start, fs), (MadeDir, fs1), (Delivered, fs2)]"
    with changed have "fs2 x \<noteq> fs1 x \<or> fs1 x \<noteq> fs x" by auto
    then show ?P using st1 st2 [OF c1] by blast
  next
    fix fs2 fs3
    assume c1: "copy2 fs1 ?src ?dst = Inr fs2" and c2: "copy2 fs2 ?src ?arc = Inr fs3"
      and "?tr = [(Start, fs), (MadeDir, fs1), (Delivered, fs2), (Archived, fs3)]"
    with changed have "fs3 x \<noteq> fs2 x \<or> fs2 x \<noteq> fs1 x \<or> fs1 x \<noteq> fs x" by auto
    then show ?P using st1 st2 [OF c1] st3 [OF c1 c2] by blast
  next
    fix fs2 fs3 fs4
    assume c1: "copy2 fs1 ?src ?dst = Inr fs2" and c2: "copy2 fs2 ?src ?arc = Inr fs3"
      and u: "unlink fs3 ?src = Inr fs4"
      and "?tr = [(Start, fs), (MadeDir, fs1), (Delivered, fs2), (Archived, fs3),
                           (DeletedSource, fs4)]"
    with changed have "fs4 x \<noteq> fs3 x \<or> fs3 x \<noteq> fs2 x \<or> fs2 x \<noteq> fs1 x \<or> fs1 x \<noteq> fs x"
      by auto
    then show ?P using st1 st2 [OF c1] st3 [OF c1 c2] st4 [OF _ u] by blast
  qed
  with role unit show ?thesis by simp
qed

lemma send_response_changes:
  assumes "snd (send_response file role unit now fs) x \<noteq> fs x"
  shows "role \<in> set valid_teams \<and> unit \<noteq> [] \<and> CHR ''/'' \<notin> set unit \<and>
     (x = normpath [] (plan_response file) \<or>
      x = normpath [] (plan_response file @ [''response.md'']) \<or>
      resolve fs [] (response_archive file unit now role) = Some x \<or>
      x = normpath [] (response_archive file unit now role @ [''response.md'']) \<and>
        isdir fs (response_archive file unit now role) \<or>
      x = normpath [] (role_response file role) \<or>
      x = normpath [] (role_request file role))"
    (is "_ \<and> _ \<and> _ \<and> ?P")
proof -
  let ?src = "role_response file role" and ?dst = "plan_response file"
  let ?arc = "response_archive file unit now role" and ?req = "role_request file role"
  let ?tr = "send_response_trace file role unit now fs"
  from assms have changed: "snd (last ?tr) x \<noteq> fs x"
    by (simp add: send_response_trace_last)
  then have "?tr \<noteq> [(Start, fs)]" by auto
  with send_response_trace_cases [of "file" "role" "unit" "now" "fs"] obtain fs1 where
    role: "role \<in> set valid_teams" and unit: "unit \<noteq> []" "CHR ''/'' \<notin> set unit"
    and c1: "copy2 fs ?src ?dst = Inr fs1"
    and rest: "?tr = [(Start, fs), (Delivered, fs1)]
       \<or> (\<exists>fs2. copy2 fs1 ?src ?arc = Inr fs2 \<and>
            (?tr = [(Start, fs), (Delivered, fs1), (Archived, fs2)]
             \<or> (\<exists>fs3. unlink fs2 ?src = Inr fs3 \<and>
                  (?tr = [(Start, fs), (Delivered, fs1), (Archived, fs2), (DeletedSource, fs3)]
                   \<or> (\<exists>fs4. unlink fs3 ?req = Inr fs4 \<and>
                        ?tr = [(Start, fs), (Delivered, fs1), (Archived, fs2), (DeletedSource, fs3),
                           (DeletedRequest, fs4)])))))"
    by blast
  from c1 have sd: "same_dirs fs fs1"
    by (rule copy2_success) (simp add: same_dirs_write)
  have st1: "?P" if ch: "fs1 x \<noteq> fs x"
  proof -
    from copy2_changes [OF c1 ch]
    have "x = normpath [] ?dst \<or> x = normpath [] (?dst @ [''response.md''])"
      by (auto dest!: resolve_normpath simp: last_role_response)
    then show ?thesis by blast
  qed
  have st2: "?P" if c2: "copy2 fs1 ?src ?arc = Inr fs2" and ch: "fs2 x \<noteq> fs1 x" for fs2
  proof -
    from copy2_changes [OF c2 ch] show ?thesis
    proof (elim disjE conjE)
      assume "resolve fs1 [] ?arc = Some x"
      then have "resolve fs [] ?arc = Some x" using sd by (simp add: same_dirs_resolve)
      then show ?thesis by blast
    next
      assume x: "resolve fs1 [] (?arc @ [last ?src]) = Some x" and "isdir fs1 ?arc"
      then have "isdir fs ?arc" using sd by (simp add: same_dirs_isdir)
      moreover have "x = normpath [] (?arc @ [''response.md''])"
        using resolve_normpath [OF x] by (simp add: last_role_response)
      ultimately show ?thesis by blast
    qed
  qed
  have st3: "?P" if "fs3 x \<noteq> fs2 x" "unlink fs2 ?src = Inr fs3" for fs2 fs3
  proof -
    from that have "x = normpath [] ?src" by (auto dest: unlink_changes)
    then show ?thesis by blast
  qed
  have st4: "?P" if "fs4 x \<noteq> fs3 x" "unlink fs3 ?req = Inr fs4" for fs3 fs4
  proof -
    from that have "x = normpath [] ?req" by (auto dest: unlink_changes)
    then show ?thesis by blast
  qed
  from rest have ?P
  proof (elim disjE exE conjE)
    assume "?tr = [(Start, fs), (Delivered, fs1)]"
    with changed show ?P using st1 by simp
  next
    fix fs2
    assume c2: "copy2 fs1 ?src ?arc = Inr fs2"
      and "?tr = [(Start, fs), (Delivered, fs1), (Archived, fs2)]"
    with changed have "fs2 x \<noteq> fs1 x \<or> fs1 x \<noteq> fs x" by auto
    then show ?P using st1 st2 [OF c2] by blast
  next
    fix fs2 fs3
    assume c2: "copy2 fs1 ?src ?arc = Inr fs2" and u: "unlink fs2 ?src = Inr fs3"
      and "?tr = [(Start, fs), (Delivered, fs1), (Archived, fs2), (DeletedSource, fs3)]"
    with changed have "fs3 x \<noteq> fs2 x \<or> fs2 x \<noteq> fs1 x \<or> fs1 x \<noteq> fs x" by auto
    then show ?P using st1 st2 [OF c2] st3 [OF _ u] by blast
  next
    fix fs2 fs3 fs4
    assume c2: "copy2 fs1 ?src ?arc = Inr fs2" and u: "unlink fs2 ?src = Inr fs3"
      and ur: "unlink fs3 ?req = Inr fs4"
      and "?tr = [(Start, fs), (Delivered, fs1), (Archived, fs2), (DeletedSource, fs3),
                           (DeletedRequest, fs4)]"
    with changed have "fs4 x \<noteq> fs3 x \<or> fs3 x \<noteq> fs2 x \<or> fs2 x \<noteq> fs1 x \<or> fs1 x \<noteq> fs x"
      by auto
    then show ?P using st1 st2 [OF c2] st3 [OF _ u] st4 [OF _ ur] by blast
  qed
  with role unit show ?thesis by simp
qed

text \<open>
  C10. No run of \<open>send_request\<close> or \<open>send_response\<close>, whatever its arguments, wherever
  the script lies and however the run ends, changes anything outside the project root,
  the parent of the script's directory. The root is taken in its canonical form
  \<open>normpath [] (project_root file)\<close>, since \<^verbatim>\<open>__file__\<close> may contain \<^verbatim>\<open>..\<close>.
\<close>

theorem effects_inside_project_root:
  assumes "\<not> prefix (normpath [] (project_root file)) p"
  shows "snd (send_request file role unit now fs) p = fs p \<and>
         snd (send_response file role unit now fs) p = fs p"
proof -
  have "snd (send_request file role unit now fs) p = fs p"
  proof (rule ccontr)
    assume "snd (send_request file role unit now fs) p \<noteq> fs p"
    from send_request_changes [OF this] have "prefix (normpath [] (project_root file)) p"
      by (auto dest!: resolve_normpath simp: nf_plan nf_role nf_unit_dir nf_request_archive
          nf_extended)
    with assms show False by simp
  qed
  moreover have "snd (send_response file role unit now fs) p = fs p"
  proof (rule ccontr)
    assume "snd (send_response file role unit now fs) p \<noteq> fs p"
    from send_response_changes [OF this] have "prefix (normpath [] (project_root file)) p"
      by (auto dest!: resolve_normpath simp: nf_plan nf_role nf_unit_dir nf_response_archive
          nf_extended)
    with assms show False by simp
  qed
  ultimately show ?thesis by simp
qed

text \<open>Three runs: the request of the example; a response with the unit name \<^verbatim>\<open>..\<close>, which
  the validation accepts; and a response started through a path with \<^verbatim>\<open>..\<close> in it.\<close>

theorem effects_inside_project_root_witness:
  "fst (send_request request_script ''dev'' ''demo'' demo_now demo_staged) = Inr True \<and>
   snd (send_request request_script ''dev'' ''demo'' demo_now demo_staged) [''etc'', ''passwd'']
     = demo_staged [''etc'', ''passwd''] \<and>
   fst (send_response response_script ''dev'' ''..'' demo_now demo_answered) = Inr True \<and>
   snd (send_response response_script ''dev'' ''..'' demo_now demo_answered) []
     = demo_answered [] \<and>
   project_root detour_script = [''w'', ''.dev'', ''..''] \<and>
   fst (send_response detour_script ''dev'' ''demo'' demo_now demo_answered) = Inr True \<and>
   snd (send_response detour_script ''dev'' ''demo'' demo_now demo_answered) [''etc'']
     = demo_answered [''etc'']"
proof -
  have a: "\<not> prefix (normpath [] (project_root request_script)) [''etc'', ''passwd'']"
    and b: "\<not> prefix (normpath [] (project_root response_script)) []"
    and c: "\<not> prefix (normpath [] (project_root detour_script)) [''etc'']"
    by (simp_all add: path_defs library_defs demo_defs)
  have "fst (send_request request_script ''dev'' ''demo'' demo_now demo_staged) = Inr True"
    "fst (send_response response_script ''dev'' ''..'' demo_now demo_answered) = Inr True"
    "fst (send_response detour_script ''dev'' ''demo'' demo_now demo_answered) = Inr True"
    "project_root detour_script = [''w'', ''.dev'', ''..'']"
    by (simp_all add: run_defs path_defs library_defs demo_defs)
  then show ?thesis
    using effects_inside_project_root [OF a, of "''dev''" "''demo''" demo_now demo_staged]
      effects_inside_project_root [OF b, of "''dev''" "''..''" demo_now demo_answered]
      effects_inside_project_root [OF c, of "''dev''" "''demo''" demo_now demo_answered]
    by simp
qed

section \<open>The archive\<close>

lemma request_archived:
  assumes run: "send_request file role unit now fs = (Inr True, fs')"
    and na: "\<not> isdir fs (request_archive file unit now role)"
  shows "\<exists>c. read_text fs (staged_request file) = Inr c \<and>
             read_text fs' (request_archive file unit now role) = Inr c"
proof -
  let ?src = "staged_request file" and ?dst = "role_request file role"
  let ?arc = "request_archive file unit now role"
  let ?name = "strftime now @ ''_request_to_'' @ role @ ''.md''"
  from run obtain c fs1 fs2 fs3 where
    role: "role \<in> set valid_teams"
    and req: "exists fs (requirements file unit)"
    and staged: "read_text fs ?src = Inr c"
    and mk: "mkdir_exist_ok fs (role_dir file role) = Inr fs1"
    and c1: "copy2 fs1 ?src ?dst = Inr fs2"
    and c2: "copy2 fs2 ?src ?arc = Inr fs3"
    and u: "unlink fs3 ?src = Inr fs'"
    by (rule send_request_success)
  have arc: "?arc = unit_dir file unit @ [?name]"
    using role by (rule request_archive_snoc)
  from staged obtain s where s: "resolve fs [] ?src = Some s" "fs s = Some (File c)"
    by (auto simp: read_text_iff)
  from mkdir_step [OF mk s] have s1: "resolve fs1 [] ?src = Some s" "fs1 s = Some (File c)"
    by simp_all
  from req obtain l where l: "resolve fs [] (unit_dir file unit) = Some l" "fs l = Some Dir"
    by (auto simp: exists_iff requirements_def joinpath_literals resolve_snoc)
  then have a0: "resolve fs [] ?arc = Some (l @ [?name])"
    by (simp add: arc resolve_snoc archive_name_proper)
  with na have "fs (l @ [?name]) \<noteq> Some Dir" by (simp add: isdir_iff)
  moreover have "l @ [?name] \<noteq> normpath [] (role_dir file role)"
    using role by (simp add: nf_role archive_name_not_role)
  ultimately have "fs1 (l @ [?name]) \<noteq> Some Dir"
    using mkdir_changes [OF mk, of "l @ [?name]"] by metis
  moreover have a1: "resolve fs1 [] ?arc = Some (l @ [?name])"
    using a0 mk by (auto simp: mkdir_exist_ok_iff intro: resolve_mono)
  ultimately have na1: "\<not> isdir fs1 ?arc" by (simp add: isdir_iff)
  from s1 c1 obtain d where d: "d \<noteq> s" "fs2 = fs1(d \<mapsto> File c)" "same_dirs fs1 fs2"
    by (rule copy2_step)
  then have s2: "resolve fs2 [] ?src = Some s" "fs2 s = Some (File c)"
    using s1 by (simp_all add: same_dirs_resolve)
  from na1 d have "\<not> isdir fs2 ?arc" by (simp add: same_dirs_isdir)
  with c2 obtain s' a c' where
    a: "resolve fs2 [] ?arc = Some a" "a \<noteq> s'" "resolve fs2 [] ?src = Some s'"
    "fs2 s' = Some (File c')" "fs2 a \<noteq> Some Dir" "fs3 = fs2(a \<mapsto> File c')"
    by (rule copy2_file)
  with s2 have [simp]: "s' = s" "c' = c" by simp_all
  have sd3: "same_dirs fs2 fs3" using a by (simp add: same_dirs_write)
  then have s3: "resolve fs3 [] ?src = Some s" using s2 by (simp add: same_dirs_resolve)
  from unlink_step [OF s3 u] have fs': "fs' = fs3(s := None)" "same_dirs fs3 fs'" by blast+
  have "resolve fs' [] ?arc = Some a"
    using a(1) sd3 fs'(2) by (simp add: same_dirs_resolve)
  moreover have "fs' a = Some (File c)" using fs' a by simp
  ultimately have "read_text fs' ?arc = Inr c" by (auto simp: read_text_iff)
  with staged show ?thesis by blast
qed

lemma response_archived:
  assumes run: "send_response file role unit now fs = (Inr True, fs')"
    and na: "\<not> isdir fs (response_archive file unit now role)"
  shows "\<exists>c. read_text fs (role_response file role) = Inr c \<and>
             read_text fs' (response_archive file unit now role) = Inr c"
proof -
  let ?src = "role_response file role" and ?dst = "plan_response file"
  let ?arc = "response_archive file unit now role" and ?req = "role_request file role"
  let ?name = "strftime now @ ''_response_from_'' @ role @ ''.md''"
  from run obtain fs1 fs2 fs3 where
    role: "role \<in> set valid_teams"
    and c1: "copy2 fs ?src ?dst = Inr fs1"
    and c2: "copy2 fs1 ?src ?arc = Inr fs2"
    and u: "unlink fs2 ?src = Inr fs3"
    and r: "exists fs3 ?req \<and> unlink fs3 ?req = Inr fs' \<or> \<not> exists fs3 ?req \<and> fs' = fs3"
    by (rule send_response_success)
  from c1 obtain s c where s: "resolve fs [] ?src = Some s" "fs s = Some (File c)"
    by (rule copy2_success)
  then have staged: "read_text fs ?src = Inr c" by (auto simp: read_text_iff)
  from s c1 obtain d where d: "d \<noteq> s" "fs1 = fs(d \<mapsto> File c)" "same_dirs fs fs1"
    by (rule copy2_step)
  then have s1: "resolve fs1 [] ?src = Some s" "fs1 s = Some (File c)"
    using s by (simp_all add: same_dirs_resolve)
  from na d have "\<not> isdir fs1 ?arc" by (simp add: same_dirs_isdir)
  with c2 obtain s' a c' where
    a: "resolve fs1 [] ?arc = Some a" "a \<noteq> s'" "resolve fs1 [] ?src = Some s'"
    "fs1 s' = Some (File c')" "fs1 a \<noteq> Some Dir" "fs2 = fs1(a \<mapsto> File c')"
    by (rule copy2_file)
  with s1 have [simp]: "s' = s" "c' = c" by simp_all
  have sd2: "same_dirs fs1 fs2" using a by (simp add: same_dirs_write)
  then have s2: "resolve fs2 [] ?src = Some s" using s1 by (simp add: same_dirs_resolve)
  from unlink_step [OF s2 u] have fs3: "fs3 = fs2(s := None)" "same_dirs fs2 fs3" by blast+
  have a3: "resolve fs3 [] ?arc = Some a" "fs3 a = Some (File c)"
    using a sd2 fs3 by (simp_all add: same_dirs_resolve)
  have "last a = ?name"
    using a(1) role by (auto simp: response_archive_snoc archive_name_proper dest: resolve_last)
  from r have "resolve fs' [] ?arc = Some a \<and> fs' a = Some (File c)"
  proof
    assume "exists fs3 ?req \<and> unlink fs3 ?req = Inr fs'"
    then obtain q where q: "resolve fs3 [] ?req = Some q" "fs' = fs3(q := None)" "same_dirs fs3 fs'"
      by (auto simp: unlink_iff same_dirs_remove)
    have "last q = ''request.md''"
      using q(1) by (auto simp: role_request_def joinpath_literals dest: resolve_last)
    with \<open>last a = ?name\<close> have "q \<noteq> a" by (auto simp: archive_name_proper)
    then show ?thesis using q a3 by (simp add: same_dirs_resolve)
  next
    assume "\<not> exists fs3 ?req \<and> fs' = fs3"
    then show ?thesis using a3 by simp
  qed
  then have "read_text fs' ?arc = Inr c" by (auto simp: read_text_iff)
  with staged show ?thesis by blast
qed

lemma inside_directory:
  assumes "isdir fs p" "x = normpath [] (p @ [b])" "b \<noteq> []" "b \<noteq> ''.''" "b \<noteq> ''..''"
  shows "resolve fs [] (p @ [b]) = Some x"
proof -
  from assms(1) obtain d where d: "resolve fs [] p = Some d" "fs d = Some Dir"
    by (auto simp: isdir_iff)
  with assms(3-5) have r: "resolve fs [] (p @ [b]) = Some (d @ [b])"
    by (simp add: resolve_snoc)
  from resolve_normpath [OF r] assms(2) r show ?thesis by simp
qed

lemma request_archive_frame:
  assumes under: "prefix (normpath [] (project_root file) @ [''.lifecycle'']) p"
    and ch: "snd (send_request file role unit now fs) p \<noteq> fs p"
  shows "resolve fs [] (request_archive file unit now role) = Some p \<or>
    isdir fs (request_archive file unit now role) \<and>
    resolve fs [] (request_archive file unit now role @ [''request.md'']) = Some p"
proof -
  from send_request_changes [OF ch] have "role \<in> set valid_teams" by simp
  then have "role \<noteq> ''lifecycle''" by (auto simp: valid_teams_def)
  with send_request_changes [OF ch] under
  have "resolve fs [] (request_archive file unit now role) = Some p \<or>
    p = normpath [] (request_archive file unit now role @ [''request.md'']) \<and>
    isdir fs (request_archive file unit now role)"
    by (auto simp: nf_plan nf_role nf_extended)
  then show ?thesis by (auto intro: inside_directory)
qed

lemma response_archive_frame:
  assumes under: "prefix (normpath [] (project_root file) @ [''.lifecycle'']) p"
    and ch: "snd (send_response file role unit now fs) p \<noteq> fs p"
  shows "resolve fs [] (response_archive file unit now role) = Some p \<or>
    isdir fs (response_archive file unit now role) \<and>
    resolve fs [] (response_archive file unit now role @ [''response.md'']) = Some p"
proof -
  from send_response_changes [OF ch] have "role \<in> set valid_teams" by simp
  then have "role \<noteq> ''lifecycle''" by (auto simp: valid_teams_def)
  with send_response_changes [OF ch] under
  have "resolve fs [] (response_archive file unit now role) = Some p \<or>
    p = normpath [] (response_archive file unit now role @ [''response.md'']) \<and>
    isdir fs (response_archive file unit now role)"
    by (auto simp: nf_plan nf_role nf_extended)
  then show ?thesis by (auto intro: inside_directory)
qed

text \<open>
  C8, as the code has it. Whatever a run of either operation changes below
  \<^verbatim>\<open>.lifecycle\<close>, however the run ends, is the entry at the run's own archive path (or,
  where that path is a directory, the entry of the source's name inside it): every
  other entry is left as it was. Where no entry of the archive name exists, what
  changes did not exist before, so nothing is deleted or altered. A successful run whose
  archive path is not a directory leaves the staged text at the archive path: one entry
  more where the name was free, the earlier entry overwritten where it was not.
\<close>

theorem archive_append_only:
  "((\<forall>p. prefix (normpath [] (project_root file) @ [''.lifecycle'']) p \<longrightarrow>
         snd (send_request file role unit now fs) p \<noteq> fs p \<longrightarrow>
         resolve fs [] (request_archive file unit now role) = Some p \<or>
         isdir fs (request_archive file unit now role) \<and>
         resolve fs [] (request_archive file unit now role @ [''request.md'']) = Some p) \<and>
    (\<not> exists fs (request_archive file unit now role) \<longrightarrow>
       (\<forall>p. prefix (normpath [] (project_root file) @ [''.lifecycle'']) p \<longrightarrow>
            snd (send_request file role unit now fs) p \<noteq> fs p \<longrightarrow>
            fs p = None \<and> resolve fs [] (request_archive file unit now role) = Some p)) \<and>
    (fst (send_request file role unit now fs) = Inr True \<longrightarrow>
     \<not> isdir fs (request_archive file unit now role) \<longrightarrow>
       (\<exists>c. read_text fs (staged_request file) = Inr c \<and>
            read_text (snd (send_request file role unit now fs))
              (request_archive file unit now role) = Inr c))) \<and>
   ((\<forall>p. prefix (normpath [] (project_root file) @ [''.lifecycle'']) p \<longrightarrow>
         snd (send_response file role unit now fs) p \<noteq> fs p \<longrightarrow>
         resolve fs [] (response_archive file unit now role) = Some p \<or>
         isdir fs (response_archive file unit now role) \<and>
         resolve fs [] (response_archive file unit now role @ [''response.md'']) = Some p) \<and>
    (\<not> exists fs (response_archive file unit now role) \<longrightarrow>
       (\<forall>p. prefix (normpath [] (project_root file) @ [''.lifecycle'']) p \<longrightarrow>
            snd (send_response file role unit now fs) p \<noteq> fs p \<longrightarrow>
            fs p = None \<and> resolve fs [] (response_archive file unit now role) = Some p)) \<and>
    (fst (send_response file role unit now fs) = Inr True \<longrightarrow>
     \<not> isdir fs (response_archive file unit now role) \<longrightarrow>
       (\<exists>c. read_text fs (role_response file role) = Inr c \<and>
            read_text (snd (send_response file role unit now fs))
              (response_archive file unit now role) = Inr c)))"
proof -
  have request_fresh: "fs p = None \<and> resolve fs [] (request_archive file unit now role) = Some p"
    if fresh: "\<not> exists fs (request_archive file unit now role)"
      and under: "prefix (normpath [] (project_root file) @ [''.lifecycle'']) p"
      and ch: "snd (send_request file role unit now fs) p \<noteq> fs p" for p
  proof -
    from fresh have "\<not> isdir fs (request_archive file unit now role)"
      by (auto simp: isdir_iff exists_iff)
    with request_archive_frame [OF under ch]
    have "resolve fs [] (request_archive file unit now role) = Some p" by blast
    with fresh show ?thesis by (simp add: exists_iff)
  qed
  have response_fresh: "fs p = None \<and> resolve fs [] (response_archive file unit now role) = Some p"
    if fresh: "\<not> exists fs (response_archive file unit now role)"
      and under: "prefix (normpath [] (project_root file) @ [''.lifecycle'']) p"
      and ch: "snd (send_response file role unit now fs) p \<noteq> fs p" for p
  proof -
    from fresh have "\<not> isdir fs (response_archive file unit now role)"
      by (auto simp: isdir_iff exists_iff)
    with response_archive_frame [OF under ch]
    have "resolve fs [] (response_archive file unit now role) = Some p" by blast
    with fresh show ?thesis by (simp add: exists_iff)
  qed
  have request_written: "\<exists>c. read_text fs (staged_request file) = Inr c \<and>
       read_text (snd (send_request file role unit now fs)) (request_archive file unit now role) = Inr c"
    if "fst (send_request file role unit now fs) = Inr True"
      and "\<not> isdir fs (request_archive file unit now role)"
    using request_archived [of "file" "role" "unit" "now" "fs" "snd (send_request file role unit now fs)"] that
    by (simp add: prod_eq_iff)
  have response_written: "\<exists>c. read_text fs (role_response file role) = Inr c \<and>
       read_text (snd (send_response file role unit now fs)) (response_archive file unit now role) = Inr c"
    if "fst (send_response file role unit now fs) = Inr True"
      and "\<not> isdir fs (response_archive file unit now role)"
    using response_archived [of "file" "role" "unit" "now" "fs" "snd (send_response file role unit now fs)"] that
    by (simp add: prod_eq_iff)
  have request_part:
    "(\<forall>p. prefix (normpath [] (project_root file) @ [''.lifecycle'']) p \<longrightarrow>
         snd (send_request file role unit now fs) p \<noteq> fs p \<longrightarrow>
         resolve fs [] (request_archive file unit now role) = Some p \<or>
         isdir fs (request_archive file unit now role) \<and>
         resolve fs [] (request_archive file unit now role @ [''request.md'']) = Some p) \<and>
    (\<not> exists fs (request_archive file unit now role) \<longrightarrow>
       (\<forall>p. prefix (normpath [] (project_root file) @ [''.lifecycle'']) p \<longrightarrow>
            snd (send_request file role unit now fs) p \<noteq> fs p \<longrightarrow>
            fs p = None \<and> resolve fs [] (request_archive file unit now role) = Some p)) \<and>
    (fst (send_request file role unit now fs) = Inr True \<longrightarrow>
     \<not> isdir fs (request_archive file unit now role) \<longrightarrow>
       (\<exists>c. read_text fs (staged_request file) = Inr c \<and>
            read_text (snd (send_request file role unit now fs))
              (request_archive file unit now role) = Inr c))"
    using request_archive_frame [of "file" _ "role" "unit" "now" "fs"] request_fresh request_written
    by (intro conjI allI impI) blast+
  have response_part:
    "(\<forall>p. prefix (normpath [] (project_root file) @ [''.lifecycle'']) p \<longrightarrow>
         snd (send_response file role unit now fs) p \<noteq> fs p \<longrightarrow>
         resolve fs [] (response_archive file unit now role) = Some p \<or>
         isdir fs (response_archive file unit now role) \<and>
         resolve fs [] (response_archive file unit now role @ [''response.md'']) = Some p) \<and>
    (\<not> exists fs (response_archive file unit now role) \<longrightarrow>
       (\<forall>p. prefix (normpath [] (project_root file) @ [''.lifecycle'']) p \<longrightarrow>
            snd (send_response file role unit now fs) p \<noteq> fs p \<longrightarrow>
            fs p = None \<and> resolve fs [] (response_archive file unit now role) = Some p)) \<and>
    (fst (send_response file role unit now fs) = Inr True \<longrightarrow>
     \<not> isdir fs (response_archive file unit now role) \<longrightarrow>
       (\<exists>c. read_text fs (role_response file role) = Inr c \<and>
            read_text (snd (send_response file role unit now fs))
              (response_archive file unit now role) = Inr c))"
    using response_archive_frame [of "file" _ "role" "unit" "now" "fs"] response_fresh response_written
    by (intro conjI allI impI) blast+
  from request_part response_part show ?thesis by (rule conjI)
qed

text \<open>Three runs: the request of the example, whose archive name is free; the second
  request within the second, which overwrites; and a response started through a path
  with \<^verbatim>\<open>..\<close> in it.\<close>

theorem archive_append_only_witness:
  "\<not> exists demo_staged (request_archive request_script ''demo'' demo_now ''dev'') \<and>
   fst (send_request request_script ''dev'' ''demo'' demo_now demo_staged) = Inr True \<and>
   read_text (snd (send_request request_script ''dev'' ''demo'' demo_now demo_staged))
     (request_archive request_script ''demo'' demo_now ''dev'')
     = Inr ''see .lifecycle/demo/requirements.md'' \<and>
   snd (send_request request_script ''dev'' ''demo'' demo_now demo_staged)
     [''w'', ''.lifecycle'', ''demo'', ''requirements.md'']
     = demo_staged [''w'', ''.lifecycle'', ''demo'', ''requirements.md''] \<and>
   exists demo_restaged (request_archive request_script ''demo'' demo_now ''dev'') \<and>
   fst (send_request request_script ''dev'' ''demo'' demo_now demo_restaged) = Inr True \<and>
   read_text (snd (send_request request_script ''dev'' ''demo'' demo_now demo_restaged))
     (request_archive request_script ''demo'' demo_now ''dev'')
     = Inr ''again, see .lifecycle/demo/requirements.md'' \<and>
   \<not> exists demo_answered (response_archive detour_script ''demo'' demo_now ''dev'') \<and>
   fst (send_response detour_script ''dev'' ''demo'' demo_now demo_answered) = Inr True \<and>
   read_text (snd (send_response detour_script ''dev'' ''demo'' demo_now demo_answered))
     (response_archive detour_script ''demo'' demo_now ''dev'') = Inr ''done''"
proof -
  have fresh: "\<not> exists demo_staged (request_archive request_script ''demo'' demo_now ''dev'')"
    "\<not> exists demo_answered (response_archive detour_script ''demo'' demo_now ''dev'')"
    by (simp_all add: path_defs library_defs demo_defs)
  then have nodir: "\<not> isdir demo_staged (request_archive request_script ''demo'' demo_now ''dev'')"
    "\<not> isdir demo_answered (response_archive detour_script ''demo'' demo_now ''dev'')"
    by (auto simp: isdir_iff exists_iff)
  have taken: "exists demo_restaged (request_archive request_script ''demo'' demo_now ''dev'')"
    "\<not> isdir demo_restaged (request_archive request_script ''demo'' demo_now ''dev'')"
    by (simp_all add: demo_delivered_def demo_restaged_def run_defs path_defs library_defs
        demo_defs)
  have ok: "fst (send_request request_script ''dev'' ''demo'' demo_now demo_staged) = Inr True"
    "fst (send_response detour_script ''dev'' ''demo'' demo_now demo_answered) = Inr True"
    by (simp_all add: run_defs library_defs demo_defs)
  have again: "fst (send_request request_script ''dev'' ''demo'' demo_now demo_restaged) = Inr True"
    by (simp add: demo_delivered_def demo_restaged_def run_defs library_defs demo_defs)
  have before: "read_text demo_staged (staged_request request_script)
      = Inr ''see .lifecycle/demo/requirements.md''"
    "read_text demo_answered (role_response detour_script ''dev'') = Inr ''done''"
    by (simp_all add: path_defs library_defs demo_defs)
  have restaged: "read_text demo_restaged (staged_request request_script)
      = Inr ''again, see .lifecycle/demo/requirements.md''"
    by (simp add: demo_delivered_def demo_restaged_def run_defs path_defs library_defs demo_defs)
  have under: "prefix (normpath [] (project_root request_script) @ [''.lifecycle''])
      [''w'', ''.lifecycle'', ''demo'', ''requirements.md'']"
    by (simp add: path_defs library_defs demo_defs)
  have other: "resolve demo_staged [] (request_archive request_script ''demo'' demo_now ''dev'')
      \<noteq> Some [''w'', ''.lifecycle'', ''demo'', ''requirements.md'']"
    by (simp add: path_defs library_defs demo_defs)
  show ?thesis
    using archive_append_only [of request_script "''dev''" "''demo''" demo_now demo_staged,
        THEN conjunct1]
      archive_append_only [of request_script "''dev''" "''demo''" demo_now demo_restaged,
        THEN conjunct1]
      archive_append_only [of detour_script "''dev''" "''demo''" demo_now demo_answered,
        THEN conjunct2]
      fresh nodir taken ok again before restaged under other
    by auto
qed

text \<open>
  C8 as stated does not hold: the archive name has second resolution and
  \<^verbatim>\<open>shutil.copy2\<close> overwrites. A second request to the same role and unit within the
  second replaces the archived copy of the first.
\<close>

theorem archive_overwritten_within_a_second:
  "read_text demo_delivered (request_archive request_script ''demo'' demo_now ''dev'')
     = Inr ''see .lifecycle/demo/requirements.md'' \<and>
   fst (send_request request_script ''dev'' ''demo'' demo_now demo_restaged) = Inr True \<and>
   read_text (snd (send_request request_script ''dev'' ''demo'' demo_now demo_restaged))
     (request_archive request_script ''demo'' demo_now ''dev'')
     = Inr ''again, see .lifecycle/demo/requirements.md''"
  by (simp add: demo_delivered_def demo_restaged_def run_defs path_defs library_defs demo_defs)

end
